theory Spec2Isabelle
  imports
    Complex_Main
    "HOL-Library.Multiset"
    "HOL-Library.Char_ord"
    "HOL-Library.List_Lexorder"
    "HOL-Library.Product_Lexorder"
    "HOL-Library.Sublist"
begin

section \<open>The dataset\<close>

text \<open>
  One row of \<^verbatim>\<open>ev_vs_petrol_dataset_v3.csv\<close>, with the twelve columns the
  dashboard reads. Sales, years and station counts are int64 columns: their
  cells are integers, and a sum of them wraps around at \<open>2 ^ 63\<close>
  (\<open>series_sum\<close> below). The other numeric columns are floating-point in pandas
  and are modelled by exact rationals, so a statement about a mean or a
  percentage of them is about the exact value the column expression denotes,
  not about its binary rounding. The one floating-point expression computed
  from the integer columns, the share of chart 2, goes through an explicit
  rounding function.
\<close>

record row =
  country :: string
  region :: string
  year :: int
  ev_sales :: int
  petrol_car_sales :: int
  diesel_car_sales :: int
  ev_market_share :: rat
  ev_growth_rate_yoy :: rat
  gdp_per_capita :: rat
  charging_stations :: int
  avg_ev_range_km :: rat
  co2_emissions_transport_mt :: rat

text \<open>A data frame is the list of its rows, in index order.\<close>

type_synonym frame = "row list"

text \<open>
  The result of a floating-point column expression: a finite value, one of the
  two infinities, or NaN. pandas produces the last three without raising.
\<close>

datatype fval = NaN | NegInf | Fin rat | PosInf

section \<open>Series operations used by the filter\<close>

text \<open>\<^verbatim>\<open>Series.isin(values)\<close>: the boolean mask of membership.\<close>

definition isin :: "'a list \<Rightarrow> 'a list \<Rightarrow> bool list" where
  "isin col vals = map (\<lambda>x. x \<in> set vals) col"

text \<open>\<^verbatim>\<open>col >= v\<close> and \<open>col <= v\<close> on an integer column.\<close>

definition series_ge :: "int list \<Rightarrow> int \<Rightarrow> bool list" where
  "series_ge col v = map (\<lambda>x. v \<le> x) col"

definition series_le :: "int list \<Rightarrow> int \<Rightarrow> bool list" where
  "series_le col v = map (\<lambda>x. x \<le> v) col"

text \<open>\<^verbatim>\<open>a & b\<close> on two masks over the same index.\<close>

definition mask_and :: "bool list \<Rightarrow> bool list \<Rightarrow> bool list" where
  "mask_and a b = map (\<lambda>(p, q). p \<and> q) (zip a b)"

text \<open>\<^verbatim>\<open>df[mask]\<close>: the rows whose mask entry is true, in index order.\<close>

definition select_mask :: "'a list \<Rightarrow> bool list \<Rightarrow> 'a list" where
  "select_mask df bs = map fst (filter snd (zip df bs))"

text \<open>
  \<^verbatim>\<open>Series.min()\<close> and \<^verbatim>\<open>Series.max()\<close> on an integer column. On an empty
  column pandas returns NaN, which is \<open>None\<close> here.
\<close>

fun series_min :: "int list \<Rightarrow> int option" where
  "series_min [] = None"
| "series_min (x # xs) = Some (fold min xs x)"

fun series_max :: "int list \<Rightarrow> int option" where
  "series_max [] = None"
| "series_max (x # xs) = Some (fold max xs x)"

text \<open>\<^verbatim>\<open>Series.unique()\<close>: the distinct values in order of first appearance.\<close>

fun unique :: "'a list \<Rightarrow> 'a list" where
  "unique [] = []"
| "unique (x # xs) = x # unique (filter (\<lambda>y. y \<noteq> x) xs)"

section \<open>Sidebar filter (source lines 39-41)\<close>

text \<open>
  \<^verbatim>\<open>filtered_df = df[(df['country'].isin(selected_countries)) &
                    (df['year'] >= selected_years[0]) &
                    (df['year'] <= selected_years[1])]\<close>
\<close>

definition filtered_df :: "frame \<Rightarrow> string list \<Rightarrow> int \<times> int \<Rightarrow> frame" where
  "filtered_df df selected_countries selected_years =
     select_mask df
       (mask_and
          (mask_and (isin (map country df) selected_countries)
                    (series_ge (map year df) (fst selected_years)))
          (series_le (map year df) (snd selected_years)))"

text \<open>
  The country choices offered by the sidebar (line 28):
  \<^verbatim>\<open>sorted(df['country'].unique())\<close>.
\<close>

definition country_options :: "frame \<Rightarrow> string list" where
  "country_options df = sort (unique (map country df))"

section \<open>Group-by\<close>

text \<open>
  \<^verbatim>\<open>DataFrame.groupby(key)\<close> with the default \<^verbatim>\<open>sort=True\<close>: one group per
  distinct key, groups in ascending key order, and inside a group the rows in
  their original order. The rows are scanned once; each row joins the group of
  its key, or opens a new group at the key's place.
\<close>

fun insert_group :: "'k::linorder \<Rightarrow> 'a \<Rightarrow> ('k \<times> 'a list) list \<Rightarrow> ('k \<times> 'a list) list" where
  "insert_group k r [] = [(k, [r])]"
| "insert_group k r ((k', rs) # gs) =
     (if k = k' then (k', rs @ [r]) # gs
      else if k < k' then (k, [r]) # (k', rs) # gs
      else (k', rs) # insert_group k r gs)"

definition groupby :: "('a \<Rightarrow> 'k::linorder) \<Rightarrow> 'a list \<Rightarrow> ('k \<times> 'a list) list" where
  "groupby key rows = fold (\<lambda>r. insert_group (key r) r) rows []"

text \<open>
  \<^verbatim>\<open>Series.sum()\<close>, \<^verbatim>\<open>groupby(...).sum()\<close> and \<^verbatim>\<open>sum(axis=1)\<close> on int64 columns:
  the result is an int64 again, so the sum is reduced into
  \<open>[- 2 ^ 63, 2 ^ 63)\<close> without any error. The sum of an empty column is 0.
\<close>

definition series_sum :: "int list \<Rightarrow> int" where
  "series_sum xs = signed_take_bit 63 (sum_list xs)"

section \<open>Chart 1: sales over time (source line 48)\<close>

text \<open>
  \<^verbatim>\<open>sales_by_year = filtered_df.groupby('year')[['ev_sales', 'petrol_car_sales']]
                     .sum().reset_index()\<close>:
  one output row \<open>(year, ev_sales, petrol_car_sales)\<close> per group.
\<close>

definition sales_by_year :: "frame \<Rightarrow> (int \<times> int \<times> int) list" where
  "sales_by_year view =
     map (\<lambda>(y, rs). (y, series_sum (map ev_sales rs), series_sum (map petrol_car_sales rs)))
       (groupby year view)"

text \<open>
  The first two summary metrics (lines 191 and 195):
  \<^verbatim>\<open>filtered_df['ev_sales'].sum()\<close> and \<^verbatim>\<open>filtered_df['petrol_car_sales'].sum()\<close>.
\<close>

definition total_ev :: "frame \<Rightarrow> int" where
  "total_ev view = series_sum (map ev_sales view)"

definition total_petrol :: "frame \<Rightarrow> int" where
  "total_petrol view = series_sum (map petrol_car_sales view)"

section \<open>Floating-point results\<close>

text \<open>
  \<^verbatim>\<open>Series.mean()\<close>: NaN on an empty column, the arithmetic mean otherwise.
\<close>

definition series_mean :: "rat list \<Rightarrow> fval" where
  "series_mean xs = (if xs = [] then NaN else Fin (sum_list xs / of_nat (length xs)))"

text \<open>Exact multiplication by the constant 100; NaN and the infinities are kept.\<close>

fun times100 :: "fval \<Rightarrow> fval" where
  "times100 (Fin q) = Fin (q * 100)"
| "times100 v = v"

text \<open>
  Rounding of an exact result to the nearest float64. Only two properties of
  it are used: it is monotone, and it leaves the integers up to \<open>2 ^ 53\<close>
  unchanged. The values below stay far from the float64 range limits.
\<close>

definition float_rounding :: "(rat \<Rightarrow> rat) \<Rightarrow> bool" where
  "float_rounding rnd =
     ((\<forall>x y. x \<le> y \<longrightarrow> rnd x \<le> rnd y)
      \<and> (\<forall>n::int. \<bar>n\<bar> \<le> 2 ^ 53 \<longrightarrow> rnd (of_int n) = of_int n))"

text \<open>
  True division of two int64 columns, entry by entry: both operands are
  converted to float64 and divided. pandas does not raise on a zero divisor:
  \<open>0 / 0\<close> is NaN and \<open>a / 0\<close> is an infinity with the sign of \<open>a\<close>.
\<close>

definition truediv :: "(rat \<Rightarrow> rat) \<Rightarrow> int \<Rightarrow> int \<Rightarrow> fval" where
  "truediv rnd a b =
     (let x = rnd (of_int a); y = rnd (of_int b)
      in if y = 0 then (if x = 0 then NaN else if 0 < x then PosInf else NegInf)
         else Fin (rnd (x / y)))"

text \<open>The float64 product with the constant 100.\<close>

fun mul100 :: "(rat \<Rightarrow> rat) \<Rightarrow> fval \<Rightarrow> fval" where
  "mul100 rnd (Fin q) = Fin (rnd (q * 100))"
| "mul100 rnd v = v"

text \<open>Rounding to the nearest integer, halves to the even neighbour.\<close>

definition rint :: "rat \<Rightarrow> int" where
  "rint q =
     (let f = \<lfloor>q\<rfloor>; d = q - of_int f
      in if d < 1/2 then f else if 1/2 < d then f + 1 else if even f then f else f + 1)"

text \<open>
  \<^verbatim>\<open>.round(2)\<close>: scale by 100, round to the nearest integer, scale back, each
  step in float64.
\<close>

fun round2 :: "(rat \<Rightarrow> rat) \<Rightarrow> fval \<Rightarrow> fval" where
  "round2 rnd (Fin q) = Fin (rnd (of_int (rint (rnd (q * 100))) / 100))"
| "round2 rnd v = v"

text \<open>The order of floating-point values other than NaN.\<close>

fun fval_le :: "fval \<Rightarrow> fval \<Rightarrow> bool" where
  "fval_le NaN _ = False"
| "fval_le _ NaN = False"
| "fval_le NegInf _ = True"
| "fval_le _ PosInf = True"
| "fval_le (Fin a) (Fin b) = (a \<le> b)"
| "fval_le _ _ = False"

section \<open>Chart 2: market share by country (source lines 58-61)\<close>

text \<open>
  A row of \<open>market_share_by_country\<close>: the group key, the three summed sales
  columns and the two columns the script adds.
\<close>

record share_row =
  sr_country :: string
  sr_ev_sales :: int
  sr_petrol_car_sales :: int
  sr_diesel_car_sales :: int
  total :: int
  ev_share :: fval

text \<open>
  Lines 58-60: the group sums, \<^verbatim>\<open>['total'] = sum(axis=1)\<close> and
  \<^verbatim>\<open>['ev_share'] = (ev_sales / total * 100).round(2)\<close>. The division has no guard.
\<close>

definition share_table :: "(rat \<Rightarrow> rat) \<Rightarrow> frame \<Rightarrow> share_row list" where
  "share_table rnd view =
     map (\<lambda>(c, rs).
            let ev = series_sum (map ev_sales rs);
                petrol = series_sum (map petrol_car_sales rs);
                diesel = series_sum (map diesel_car_sales rs);
                tot = series_sum [ev, petrol, diesel]
            in \<lparr>sr_country = c, sr_ev_sales = ev, sr_petrol_car_sales = petrol,
                sr_diesel_car_sales = diesel, total = tot,
                ev_share = round2 rnd (mul100 rnd (truediv rnd ev tot))\<rparr>)
       (groupby country view)"

text \<open>
  \<^verbatim>\<open>sort_values('ev_share', ascending=False)\<close> runs with the default
  \<^verbatim>\<open>kind='quicksort'\<close> and \<^verbatim>\<open>na_position='last'\<close>: the rows with a NaN key are
  taken out and appended, in index order, after the sorted others. pandas
  documents the default kind as not stable, so the order it gives to equal
  keys is not fixed by the script. The sorting routine is therefore a
  parameter \<open>srt\<close>, of which only the contract is assumed: on rows without NaN
  keys it returns a permutation in descending key order.
\<close>

type_synonym sorter = "share_row list \<Rightarrow> share_row list"

definition desc_sorter :: "sorter \<Rightarrow> bool" where
  "desc_sorter srt =
     (\<forall>rows. (\<forall>r \<in> set rows. ev_share r \<noteq> NaN) \<longrightarrow>
        mset (srt rows) = mset rows
        \<and> sorted_wrt (\<lambda>a b. fval_le (ev_share b) (ev_share a)) (srt rows))"

definition sort_values_desc :: "sorter \<Rightarrow> share_row list \<Rightarrow> share_row list" where
  "sort_values_desc srt rows =
     srt (filter (\<lambda>r. ev_share r \<noteq> NaN) rows) @ filter (\<lambda>r. ev_share r = NaN) rows"

text \<open>Line 61: \<^verbatim>\<open>.reset_index().sort_values('ev_share', ascending=False).head(15)\<close>.\<close>

definition market_share_by_country ::
    "sorter \<Rightarrow> (rat \<Rightarrow> rat) \<Rightarrow> frame \<Rightarrow> share_row list" where
  "market_share_by_country srt rnd view =
     take 15 (sort_values_desc srt (share_table rnd view))"

text \<open>
  Two sorting routines that meet the contract: insertion sort, which keeps
  rows with equal keys in their order, and insertion sort of the reversed
  list, which reverses them.
\<close>

fun insert_desc :: "share_row \<Rightarrow> share_row list \<Rightarrow> share_row list" where
  "insert_desc x [] = [x]"
| "insert_desc x (y # ys) =
     (if fval_le (ev_share y) (ev_share x) then x # y # ys else y # insert_desc x ys)"

definition isort_desc :: sorter where
  "isort_desc rows = foldr insert_desc rows []"

definition isort_desc_rev :: sorter where
  "isort_desc_rev rows = isort_desc (rev rows)"

text \<open>The rounding that changes nothing meets the contract of \<open>float_rounding\<close>.\<close>

definition exact :: "rat \<Rightarrow> rat" where
  "exact q = q"

section \<open>Charts 3, 6 and 9: the latest year (source lines 72-77, 112-113, 154)\<close>

text \<open>
  \<^verbatim>\<open>col == v\<close> where \<open>v\<close> is the result of \<^verbatim>\<open>max()\<close>: a comparison with NaN is false
  in every row.
\<close>

definition series_eq :: "int list \<Rightarrow> int option \<Rightarrow> bool list" where
  "series_eq col v = map (\<lambda>x. Some x = v) col"

text \<open>\<^verbatim>\<open>filtered_df[filtered_df['year'] == latest_year]\<close>\<close>

definition latest_data :: "int option \<Rightarrow> frame \<Rightarrow> frame" where
  "latest_data latest_year view = select_mask view (series_eq (map year view) latest_year)"

definition vehicle_dist :: "int option \<Rightarrow> frame \<Rightarrow> (string \<times> int) list" where
  "vehicle_dist latest_year view =
     (let d = latest_data latest_year view
      in [(''EV'', series_sum (map ev_sales d)),
          (''Petrol'', series_sum (map petrol_car_sales d)),
          (''Diesel'', series_sum (map diesel_car_sales d))])"

text \<open>
  \<^verbatim>\<open>drop_duplicates(key)\<close> with the default \<^verbatim>\<open>keep='first'\<close>: a row is kept unless
  an earlier row has its key.
\<close>

fun dedup :: "('a \<Rightarrow> 'k) \<Rightarrow> 'k list \<Rightarrow> 'a list \<Rightarrow> 'a list" where
  "dedup key seen [] = []"
| "dedup key seen (r # rs) =
     (if key r \<in> set seen then dedup key seen rs else r # dedup key (key r # seen) rs)"

definition drop_duplicates :: "('a \<Rightarrow> 'k) \<Rightarrow> 'a list \<Rightarrow> 'a list" where
  "drop_duplicates key rows = dedup key [] rows"

text \<open>
  Lines 112-113; the new column \<open>ev_market_share_pct\<close> is the second component.
\<close>

definition gdp_ev_data :: "int option \<Rightarrow> frame \<Rightarrow> (row \<times> rat) list" where
  "gdp_ev_data latest_year view =
     map (\<lambda>r. (r, ev_market_share r * 100))
       (drop_duplicates country (latest_data latest_year view))"

definition range_data :: "int option \<Rightarrow> frame \<Rightarrow> frame" where
  "range_data latest_year view = latest_data latest_year view"

section \<open>Charts 4, 5, 7 and 8 (source lines 90, 101, 131, 142)\<close>

definition regional_sales :: "frame \<Rightarrow> (int \<times> string \<times> int) list" where
  "regional_sales view =
     map (\<lambda>((y, g), rs). (y, g, series_sum (map ev_sales rs)))
       (groupby (\<lambda>r. (year r, region r)) view)"

definition growth_data :: "frame \<Rightarrow> (int \<times> rat \<times> string) list" where
  "growth_data view = map (\<lambda>r. (year r, ev_growth_rate_yoy r, country r)) view"

definition emissions_data :: "frame \<Rightarrow> (int \<times> fval) list" where
  "emissions_data view =
     map (\<lambda>(y, rs). (y, series_mean (map co2_emissions_transport_mt rs))) (groupby year view)"

definition charging_data :: "frame \<Rightarrow> (int \<times> fval) list" where
  "charging_data view =
     map (\<lambda>(y, rs). (y, series_mean (map (\<lambda>r. of_int (charging_stations r)) rs)))
       (groupby year view)"

section \<open>Chart 10: the heatmap (source lines 165-174)\<close>

text \<open>
  The errors of the dashboard. \<open>ValueError\<close> is what \<^verbatim>\<open>DataFrame.pivot\<close> raises
  on two rows with the same index and column, and what the scatter plot of
  chart 6 raises on a negative marker size. \<open>NoDataError\<close> is the error the
  specification names for an empty view; no statement of the script raises it.
\<close>

datatype error = ValueError | NoDataError

definition heatmap_data :: "frame \<Rightarrow> (string \<times> int \<times> fval) list" where
  "heatmap_data view =
     map (\<lambda>((c, y), rs). (c, y, series_mean (map ev_market_share rs)))
       (groupby (\<lambda>r. (country r, year r)) view)"

record pivot_table =
  pt_index :: "string list"
  pt_columns :: "int list"
  pt_values :: "fval list list"

text \<open>
  \<^verbatim>\<open>pivot(index='country', columns='year', values='ev_market_share')\<close>: the sorted
  distinct countries label the rows, the sorted distinct years the columns,
  and a cell without a source row is NaN.
\<close>

definition pivot :: "(string \<times> int \<times> fval) list \<Rightarrow> error + pivot_table" where
  "pivot rows =
     (if \<not> distinct (map (\<lambda>(c, y, v). (c, y)) rows) then Inl ValueError
      else Inr \<lparr>pt_index = sort (unique (map (\<lambda>(c, y, v). c) rows)),
                pt_columns = sort (unique (map (\<lambda>(c, y, v). y) rows)),
                pt_values =
                  map (\<lambda>c. map (\<lambda>y. case map_of (map (\<lambda>(c, y, v). ((c, y), v)) rows) (c, y) of
                                       None \<Rightarrow> NaN | Some v \<Rightarrow> v)
                              (sort (unique (map (\<lambda>(c, y, v). y) rows))))
                      (sort (unique (map (\<lambda>(c, y, v). c) rows)))\<rparr>)"

text \<open>
  The heatmap's arguments: \<open>x\<close> the columns, \<open>y\<close> the index and
  \<^verbatim>\<open>z = heatmap_pivot.values * 100\<close>.
\<close>

record heatmap =
  hm_x :: "int list"
  hm_y :: "string list"
  hm_z :: "fval list list"

definition heatmap_of :: "frame \<Rightarrow> error + heatmap" where
  "heatmap_of view =
     (case pivot (heatmap_data view) of
        Inl e \<Rightarrow> Inl e
      | Inr heatmap_pivot \<Rightarrow>
          Inr \<lparr>hm_x = pt_columns heatmap_pivot, hm_y = pt_index heatmap_pivot,
               hm_z = map (map times100) (pt_values heatmap_pivot)\<rparr>)"

section \<open>Summary metrics (source lines 190-204)\<close>

definition avg_ev_share :: "frame \<Rightarrow> fval" where
  "avg_ev_share view = times100 (series_mean (map ev_market_share view))"

definition total_charging :: "frame \<Rightarrow> int option" where
  "total_charging view = series_max (map charging_stations view)"

section \<open>The dashboard after the filter (source lines 46-204)\<close>

record outputs =
  out_sales_by_year :: "(int \<times> int \<times> int) list"
  out_market_share_by_country :: "share_row list"
  out_latest_year :: "int option"
  out_vehicle_dist :: "(string \<times> int) list"
  out_regional_sales :: "(int \<times> string \<times> int) list"
  out_growth_data :: "(int \<times> rat \<times> string) list"
  out_gdp_ev_data :: "(row \<times> rat) list"
  out_emissions_data :: "(int \<times> fval) list"
  out_charging_data :: "(int \<times> fval) list"
  out_range_data :: frame
  out_heatmap :: heatmap
  out_total_ev :: int
  out_total_petrol :: int
  out_avg_ev_share :: fval
  out_total_charging :: "int option"

text \<open>
  Line 115, \<^verbatim>\<open>px.scatter(gdp_ev_data, ..., size='charging_stations', ...)\<close>: a
  marker size must not be negative, and the call raises \<open>ValueError\<close> when an
  entry of the size column is.
\<close>

definition scatter_size_error :: "int list \<Rightarrow> bool" where
  "scatter_size_error sizes = list_ex (\<lambda>x. x < 0) sizes"

text \<open>
  The script computes \<open>latest_year\<close> once, at line 72, and lines 73, 112 and 154
  read that variable. Two statements can raise, the scatter plot of chart 6
  and the pivot of chart 10; an error stops the script, so the later tables
  and the metrics are not computed.
\<close>

definition dashboard :: "sorter \<Rightarrow> (rat \<Rightarrow> rat) \<Rightarrow> frame \<Rightarrow> error + outputs" where
  "dashboard srt rnd view =
     (let latest_year = series_max (map year view)
      in if scatter_size_error
              (map (\<lambda>(r, pct). charging_stations r) (gdp_ev_data latest_year view))
         then Inl ValueError
         else
           case heatmap_of view of
             Inl e \<Rightarrow> Inl e
           | Inr hm \<Rightarrow>
               Inr \<lparr>out_sales_by_year = sales_by_year view,
                    out_market_share_by_country = market_share_by_country srt rnd view,
                    out_latest_year = latest_year,
                    out_vehicle_dist = vehicle_dist latest_year view,
                    out_regional_sales = regional_sales view,
                    out_growth_data = growth_data view,
                    out_gdp_ev_data = gdp_ev_data latest_year view,
                    out_emissions_data = emissions_data view,
                    out_charging_data = charging_data view,
                    out_range_data = range_data latest_year view,
                    out_heatmap = hm,
                    out_total_ev = total_ev view,
                    out_total_petrol = total_petrol view,
                    out_avg_ev_share = avg_ev_share view,
                    out_total_charging = total_charging view\<rparr>)"

section \<open>Example data\<close>

text \<open>A small dataset used to instantiate the theorems below.\<close>

definition us_2020 :: row where
  "us_2020 =
     \<lparr>country = ''US'', region = ''NA'', year = 2020, ev_sales = 100,
      petrol_car_sales = 900, diesel_car_sales = 0, ev_market_share = 1/10,
      ev_growth_rate_yoy = 0, gdp_per_capita = 60000, charging_stations = 50,
      avg_ev_range_km = 300, co2_emissions_transport_mt = 5\<rparr>"

definition de_2019 :: row where
  "de_2019 =
     \<lparr>country = ''DE'', region = ''EU'', year = 2019, ev_sales = 40,
      petrol_car_sales = 500, diesel_car_sales = 60, ev_market_share = 1/15,
      ev_growth_rate_yoy = 2, gdp_per_capita = 50000, charging_stations = 30,
      avg_ev_range_km = 280, co2_emissions_transport_mt = 4\<rparr>"

definition us_2021 :: row where
  "us_2021 =
     \<lparr>country = ''US'', region = ''NA'', year = 2021, ev_sales = 300,
      petrol_car_sales = 700, diesel_car_sales = 0, ev_market_share = 1/5,
      ev_growth_rate_yoy = 200, gdp_per_capita = 61000, charging_stations = 80,
      avg_ev_range_km = 320, co2_emissions_transport_mt = 5\<rparr>"

definition example_df :: frame where
  "example_df = [us_2020, de_2019, us_2021]"

text \<open>Two rows of 2020 with the same share of EV sales, exactly one half.\<close>

definition us_half :: row where
  "us_half = us_2020\<lparr>ev_sales := 1, petrol_car_sales := 1, diesel_car_sales := 0\<rparr>"

definition de_half :: row where
  "de_half = de_2019\<lparr>year := 2020, ev_sales := 2, petrol_car_sales := 2,
                     diesel_car_sales := 0\<rparr>"

text \<open>Rows with \<open>2 ^ 62\<close> EV sales: two of them overflow an int64 sum.\<close>

definition big_2020 :: row where
  "big_2020 = us_2020\<lparr>ev_sales := 4611686018427387904, petrol_car_sales := 0\<rparr>"

definition big_2021 :: row where
  "big_2021 = us_2021\<lparr>ev_sales := 4611686018427387904, petrol_car_sales := 0\<rparr>"

definition big_petrol :: row where
  "big_petrol = us_2020\<lparr>ev_sales := 0, petrol_car_sales := 4611686018427387904\<rparr>"

text \<open>A row of the latest year with a negative station count.\<close>

definition us_2021_neg :: row where
  "us_2021_neg = us_2021\<lparr>charging_stations := - 3\<rparr>"

text \<open>A German row without sales.\<close>

definition de_idle :: row where
  "de_idle = de_2019\<lparr>ev_sales := 0, petrol_car_sales := 0, diesel_car_sales := 0\<rparr>"

section \<open>Filter: lemmas\<close>

lemma select_mask_map:
  "select_mask xs (map P xs) = filter P xs"
  by (induction xs) (simp_all add: select_mask_def)

lemma mask_and_map:
  "mask_and (map P xs) (map Q xs) = map (\<lambda>x. P x \<and> Q x) xs"
  by (induction xs) (simp_all add: mask_and_def)

lemma filtered_df_filter:
  "filtered_df df cs (lo, hi) =
     filter (\<lambda>r. country r \<in> set cs \<and> lo \<le> year r \<and> year r \<le> hi) df"
  by (simp add: filtered_df_def isin_def series_ge_def series_le_def
        mask_and_map select_mask_map comp_def conj_assoc)

lemma set_unique: "set (unique xs) = set xs"
proof (induction xs rule: unique.induct)
  case 1
  show ?case by simp
next
  case (2 x xs)
  then show ?case by auto
qed

lemma fold_min_le: "fold min xs (a::int) \<le> a"
proof (induction xs arbitrary: a)
  case Nil
  show ?case by simp
next
  case (Cons x xs)
  have "fold min xs (min x a) \<le> min x a" by (rule Cons.IH)
  then show ?case by simp
qed

lemma fold_min_lower: "y \<in> set xs \<Longrightarrow> fold min xs (a::int) \<le> y"
proof (induction xs arbitrary: a)
  case Nil
  then show ?case by simp
next
  case (Cons x xs)
  show ?case
  proof (cases "y = x")
    case True
    have "fold min xs (min x a) \<le> min x a" by (rule fold_min_le)
    then show ?thesis using True by simp
  next
    case False
    then show ?thesis using Cons by simp
  qed
qed

lemma fold_max_ge: "a \<le> fold max xs (a::int)"
proof (induction xs arbitrary: a)
  case Nil
  show ?case by simp
next
  case (Cons x xs)
  have "max x a \<le> fold max xs (max x a)" by (rule Cons.IH)
  then show ?case by simp
qed

lemma fold_max_upper: "y \<in> set xs \<Longrightarrow> y \<le> fold max xs (a::int)"
proof (induction xs arbitrary: a)
  case Nil
  then show ?case by simp
next
  case (Cons x xs)
  show ?case
  proof (cases "y = x")
    case True
    have "max x a \<le> fold max xs (max x a)" by (rule fold_max_ge)
    then show ?thesis using True by simp
  next
    case False
    then show ?thesis using Cons by simp
  qed
qed

lemma series_min_lower: "series_min xs = Some m \<Longrightarrow> y \<in> set xs \<Longrightarrow> m \<le> y"
  by (cases xs) (auto simp: fold_min_le fold_min_lower)

lemma series_max_upper: "series_max xs = Some m \<Longrightarrow> y \<in> set xs \<Longrightarrow> y \<le> m"
  by (cases xs) (auto simp: fold_max_ge fold_max_upper)

section \<open>Filter: the claims\<close>

text \<open>
  C1. For every dataset, country selection and year range with
  \<open>lo \<le> hi\<close>, the filter returns exactly the rows whose country is selected
  and whose year lies in \<open>[lo, hi]\<close>: the result is the input with the other
  rows removed, so its rows are input rows, each satisfies both predicates,
  and they keep their relative order (the result is a subsequence of the
  input).
\<close>

theorem filter_exact_stable:
  assumes "lo \<le> hi"
  shows "filtered_df df cs (lo, hi) =
           filter (\<lambda>r. country r \<in> set cs \<and> lo \<le> year r \<and> year r \<le> hi) df
         \<and> set (filtered_df df cs (lo, hi)) \<subseteq> set df
         \<and> (\<forall>r \<in> set (filtered_df df cs (lo, hi)).
               country r \<in> set cs \<and> lo \<le> year r \<and> year r \<le> hi)
         \<and> subseq (filtered_df df cs (lo, hi)) df"
  by (simp add: filtered_df_filter)

theorem filter_exact_stable_witness:
  "(2020::int) \<le> 2021
   \<and> filtered_df example_df [''US''] (2020, 2021) = [us_2020, us_2021]
   \<and> set (filtered_df example_df [''US''] (2020, 2021)) \<subseteq> set example_df
   \<and> subseq (filtered_df example_df [''US''] (2020, 2021)) example_df"
proof -
  have h: "(2020::int) \<le> 2021" by simp
  note t = filter_exact_stable [OF h, of example_df "[''US'']"]
  have "filter (\<lambda>r. country r \<in> set [''US''] \<and> 2020 \<le> year r \<and> year r \<le> 2021) example_df
          = [us_2020, us_2021]"
    by (simp add: example_df_def us_2020_def de_2019_def us_2021_def)
  with t have v: "filtered_df example_df [''US''] (2020, 2021) = [us_2020, us_2021]"
    by (simp only:)
  from t have s: "set (filtered_df example_df [''US''] (2020, 2021)) \<subseteq> set example_df"
    by (elim conjE)
  from t have q: "subseq (filtered_df example_df [''US''] (2020, 2021)) example_df"
    by (elim conjE)
  show ?thesis
    by (rule conjI [OF h conjI [OF v conjI [OF s q]]])
qed

text \<open>
  C5. Selecting every country the sidebar offers and the whole year range
  of the dataset (its least and greatest year, which exist when the dataset
  has a row) returns the dataset unchanged, rows and order.
\<close>

theorem filter_full_selection_identity:
  assumes "series_min (map year df) = Some lo"
    and "series_max (map year df) = Some hi"
  shows "filtered_df df (country_options df) (lo, hi) = df"
proof -
  have "country r \<in> set (country_options df) \<and> lo \<le> year r \<and> year r \<le> hi"
    if "r \<in> set df" for r
    using that assms
    by (simp add: country_options_def set_unique series_min_lower series_max_upper)
  then show ?thesis
    by (simp add: filtered_df_filter)
qed

theorem filter_full_selection_identity_witness:
  "series_min (map year example_df) = Some 2019
   \<and> series_max (map year example_df) = Some 2021
   \<and> filtered_df example_df (country_options example_df) (2019, 2021) = example_df"
proof -
  have a: "series_min (map year example_df) = Some 2019"
    by (simp add: example_df_def us_2020_def de_2019_def us_2021_def)
  have b: "series_max (map year example_df) = Some 2021"
    by (simp add: example_df_def us_2020_def de_2019_def us_2021_def)
  show ?thesis
    by (rule conjI [OF a conjI [OF b filter_full_selection_identity [OF a b]]])
qed

section \<open>Group-by: lemmas\<close>

lemma keys_insert_group: "fst ` set (insert_group k r gs) = insert k (fst ` set gs)"
  by (induction k r gs rule: insert_group.induct) auto

lemma sorted_insert_group:
  "sorted_wrt (<) (map fst gs) \<Longrightarrow> sorted_wrt (<) (map fst (insert_group k r gs))"
proof (induction k r gs rule: insert_group.induct)
  case (1 k r)
  show ?case by simp
next
  case (2 k r k' rs gs)
  have "fst ` set (insert_group k r gs) = insert k (fst ` set gs)"
    by (rule keys_insert_group)
  with 2 show ?case by (auto simp: image_iff)
qed

lemma map_of_insert_group:
  "sorted_wrt (<) (map fst gs) \<Longrightarrow>
   map_of (insert_group k r gs) =
     (map_of gs)(k \<mapsto> (case map_of gs k of None \<Rightarrow> [r] | Some rs \<Rightarrow> rs @ [r]))"
proof (induction k r gs rule: insert_group.induct)
  case (1 k r)
  show ?case by simp
next
  case (2 k r k' rs gs)
  show ?case
  proof (cases "k = k'")
    case True
    then show ?thesis by (simp add: fun_eq_iff)
  next
    case ne: False
    show ?thesis
    proof (cases "k < k'")
      case True
      have "k \<notin> fst ` set gs" using 2(2) True by auto
      then have "map_of gs k = None" by (simp add: map_of_eq_None_iff)
      then show ?thesis using ne True by (simp add: fun_eq_iff)
    next
      case False
      have "sorted_wrt (<) (map fst gs)" using 2(2) by simp
      then show ?thesis using ne False 2(1) by (simp add: fun_eq_iff)
    qed
  qed
qed

lemma groupby_snoc:
  "groupby key (rows @ [r]) = insert_group (key r) r (groupby key rows)"
  by (simp add: groupby_def)

lemma sorted_groupby: "sorted_wrt (<) (map fst (groupby key rows))"
proof (induction rows rule: rev_induct)
  case Nil
  show ?case by (simp add: groupby_def)
next
  case (snoc r rows)
  then show ?case by (simp add: groupby_snoc sorted_insert_group)
qed

lemma map_of_groupby:
  "map_of (groupby key rows) k =
     (if k \<in> key ` set rows then Some (filter (\<lambda>r. key r = k) rows) else None)"
proof (induction rows rule: rev_induct)
  case Nil
  show ?case by (simp add: groupby_def)
next
  case (snoc r rows)
  note m = map_of_insert_group [OF sorted_groupby, of "key r" r key rows]
  show ?case
  proof (cases "k = key r")
    case True
    have e: "filter (\<lambda>x. key x = key r) rows = []" if "key r \<notin> key ` set rows"
      using that by (auto simp: filter_empty_conv intro: rev_image_eqI)
    show ?thesis using True snoc e by (simp add: groupby_snoc m)
  next
    case False
    then show ?thesis using snoc by (simp add: groupby_snoc m)
  qed
qed

lemma keys_groupby: "fst ` set (groupby key rows) = key ` set rows"
proof (induction rows rule: rev_induct)
  case Nil
  show ?case by (simp add: groupby_def)
next
  case (snoc r rows)
  then show ?case by (simp add: groupby_snoc keys_insert_group)
qed

lemma alist_rebuild:
  assumes "distinct (map fst xs)"
  shows "map (\<lambda>p. (fst p, the (map_of xs (fst p)))) xs = xs"
proof (rule map_idI)
  fix p assume "p \<in> set xs"
  then have "(fst p, snd p) \<in> set xs" by simp
  then have "map_of xs (fst p) = Some (snd p)"
    using assms by (simp only: map_of_eq_Some_iff)
  then show "(fst p, the (map_of xs (fst p))) = p" by simp
qed

lemma groupby_eq:
  "groupby key rows =
     map (\<lambda>k. (k, filter (\<lambda>r. key r = k) rows)) (sorted_list_of_set (key ` set rows))"
proof -
  let ?g = "groupby key rows"
  have sd: "sorted (map fst ?g)" "distinct (map fst ?g)"
    using sorted_groupby [of key rows] by (simp_all add: strict_sorted_iff)
  have "set (map fst ?g) = key ` set rows" by (simp add: keys_groupby)
  then have "sorted_list_of_set (key ` set rows) = sorted_list_of_set (set (map fst ?g))"
    by simp
  also have "\<dots> = map fst ?g"
    using sd by (rule sorted_list_of_set.idem_if_sorted_distinct)
  finally have ks: "sorted_list_of_set (key ` set rows) = map fst ?g" .
  have "map (\<lambda>k. (k, filter (\<lambda>r. key r = k) rows)) (map fst ?g)
          = map (\<lambda>p. (fst p, the (map_of ?g (fst p)))) ?g"
    unfolding map_map
  proof (rule map_cong [OF refl])
    fix p assume "p \<in> set ?g"
    then have "fst p \<in> key ` set rows"
      using keys_groupby [of key rows] by (metis imageI)
    then show "((\<lambda>k. (k, filter (\<lambda>r. key r = k) rows)) \<circ> fst) p
                 = (fst p, the (map_of ?g (fst p)))"
      by (simp add: map_of_groupby)
  qed
  also have "\<dots> = ?g" by (rule alist_rebuild [OF sd(2)])
  finally show ?thesis by (simp only: ks)
qed

lemma sum_insert_group:
  "(\<Sum>(k', rs)\<leftarrow>insert_group k r gs. sum_list (map f rs)) =
     (\<Sum>(k', rs)\<leftarrow>gs. sum_list (map f rs)) + (f r :: int)"
  by (induction k r gs rule: insert_group.induct) simp_all

lemma sum_groupby:
  "(\<Sum>(k, rs)\<leftarrow>groupby key rows. sum_list (map f rs)) = sum_list (map f rows :: int list)"
proof (induction rows rule: rev_induct)
  case Nil
  show ?case by (simp add: groupby_def)
next
  case (snoc r rows)
  then show ?case by (simp add: groupby_snoc sum_insert_group)
qed

section \<open>Sales over time: lemmas\<close>

lemma wrap_sum_list_wrap:
  "signed_take_bit 63 (sum_list (map (signed_take_bit 63) xs)) =
     signed_take_bit 63 (sum_list (xs :: int list))"
proof (induction xs)
  case Nil
  show ?case by simp
next
  case (Cons x xs)
  have "signed_take_bit 63 (signed_take_bit 63 x + sum_list (map (signed_take_bit 63) xs))
          = signed_take_bit 63 (signed_take_bit 63 (signed_take_bit 63 x)
              + signed_take_bit 63 (sum_list (map (signed_take_bit 63) xs)))"
    by (simp only: signed_take_bit_add)
  also have "\<dots> = signed_take_bit 63 (signed_take_bit 63 x + signed_take_bit 63 (sum_list xs))"
    by (simp only: Cons signed_take_bit_signed_take_bit min.idem)
  also have "\<dots> = signed_take_bit 63 (x + sum_list xs)"
    by (simp only: signed_take_bit_add)
  finally show ?case by simp
qed

lemma sales_by_year_eq:
  "sales_by_year view =
     map (\<lambda>y. (y, signed_take_bit 63 (sum_list (map ev_sales (filter (\<lambda>r. year r = y) view))),
                  signed_take_bit 63
                    (sum_list (map petrol_car_sales (filter (\<lambda>r. year r = y) view)))))
       (sorted_list_of_set (year ` set view))"
  by (simp add: sales_by_year_def groupby_eq series_sum_def comp_def)

lemma wrap_sum_groups:
  "signed_take_bit 63
     (sum_list (map (\<lambda>y. signed_take_bit 63 (sum_list (map f (filter (\<lambda>r. key r = y) rows))))
        (sorted_list_of_set (key ` set rows))))
   = signed_take_bit 63 (sum_list (map f rows :: int list))"
proof -
  have "map (\<lambda>y. signed_take_bit 63 (sum_list (map f (filter (\<lambda>r. key r = y) rows))))
          (sorted_list_of_set (key ` set rows))
        = map (signed_take_bit 63) (map (\<lambda>(k, rs). sum_list (map f rs)) (groupby key rows))"
    by (simp add: groupby_eq comp_def)
  then show ?thesis
    by (simp only: wrap_sum_list_wrap sum_groupby)
qed

lemma wrap_eq_iff:
  assumes "signed_take_bit 63 (s::int) = t"
  shows "(s = t) = (- (2 ^ 63) \<le> s \<and> s < 2 ^ 63)"
  using assms signed_take_bit_int_eq_self_iff [of 63 s] by auto

section \<open>Sales over time: the claims\<close>

text \<open>
  C7, as stated, fails: the per-year value is not the sum when the sum
  leaves the int64 range. Two rows of 2020 with \<open>2 ^ 62\<close> EV sales each have
  the sum \<open>2 ^ 63\<close>, and the table holds \<open>- 2 ^ 63\<close>.
\<close>

theorem sales_by_year_counterexample:
  "sales_by_year [big_2020, big_2020] = [(2020, - 9223372036854775808, 0)]
   \<and> sum_list (map ev_sales [big_2020, big_2020]) = 9223372036854775808"
  by (simp add: sales_by_year_def groupby_def series_sum_def big_2020_def us_2020_def)

text \<open>
  C7 (amended). The sales-over-time table has one row per year that occurs
  in the filtered view, in ascending year order; a year without rows has no
  entry. Its two values are the sums of \<open>ev_sales\<close> and \<open>petrol_car_sales\<close> over
  the rows of that year in int64 arithmetic: the sum reduced into
  \<open>[- 2 ^ 63, 2 ^ 63)\<close>, which is the sum itself whenever that lies in the
  range. On the two rows (US, 2020, ev 100, petrol 900, diesel 0) and
  (US, 2021, ev 300, petrol 700, diesel 0), whatever their other columns, the
  table is 2020: (100, 900); 2021: (300, 700).
\<close>

theorem sales_by_year_groups:
  "sales_by_year view =
     map (\<lambda>y. (y, signed_take_bit 63 (sum_list (map ev_sales (filter (\<lambda>r. year r = y) view))),
                  signed_take_bit 63
                    (sum_list (map petrol_car_sales (filter (\<lambda>r. year r = y) view)))))
       (sorted_list_of_set (year ` set view))
   \<and> sales_by_year
        [r1\<lparr>country := ''US'', year := 2020, ev_sales := 100, petrol_car_sales := 900,
            diesel_car_sales := 0\<rparr>,
         r2\<lparr>country := ''US'', year := 2021, ev_sales := 300, petrol_car_sales := 700,
            diesel_car_sales := 0\<rparr>]
      = [(2020, 100, 900), (2021, 300, 700)]"
proof
  show "sales_by_year view =
     map (\<lambda>y. (y, signed_take_bit 63 (sum_list (map ev_sales (filter (\<lambda>r. year r = y) view))),
                  signed_take_bit 63
                    (sum_list (map petrol_car_sales (filter (\<lambda>r. year r = y) view)))))
       (sorted_list_of_set (year ` set view))"
    by (rule sales_by_year_eq)
  show "sales_by_year
        [r1\<lparr>country := ''US'', year := 2020, ev_sales := 100, petrol_car_sales := 900,
            diesel_car_sales := 0\<rparr>,
         r2\<lparr>country := ''US'', year := 2021, ev_sales := 300, petrol_car_sales := 700,
            diesel_car_sales := 0\<rparr>]
      = [(2020, 100, 900), (2021, 300, 700)]"
    by (simp add: sales_by_year_def groupby_def series_sum_def)
qed

text \<open>
  C10, as stated, fails: when per-year sums overflow, the per-year values
  do not add up to the metric. In a view of two rows of 2020 and two rows of
  2021 with \<open>2 ^ 62\<close> EV sales each, the two per-year values are \<open>- 2 ^ 63\<close>,
  their sum is \<open>- 2 ^ 64\<close>, and Total EV Sales is 0.
\<close>

theorem sales_partition_counterexample:
  "sum_list (map (\<lambda>(y, e, p). e) (sales_by_year [big_2020, big_2020, big_2021, big_2021]))
     = - 18446744073709551616
   \<and> total_ev [big_2020, big_2020, big_2021, big_2021] = 0"
  by (simp add: sales_by_year_def groupby_def series_sum_def total_ev_def
        big_2020_def big_2021_def us_2020_def us_2021_def)

text \<open>
  C10 (amended). For every filtered view, Total EV Sales is the sum of
  \<open>ev_sales\<close> over the view in int64 arithmetic, the \<open>ev_sales\<close> values of the
  sales-over-time table are the per-year sums in int64 arithmetic, one per
  year of the view, and these values add up to Total EV Sales in int64
  arithmetic, that is, after reduction into \<open>[- 2 ^ 63, 2 ^ 63)\<close>. Their plain
  sum equals Total EV Sales exactly when it lies in that range. The same
  holds for \<open>petrol_car_sales\<close> and Total Petrol Sales.
\<close>

theorem sales_by_year_partition:
  "total_ev view = signed_take_bit 63 (sum_list (map ev_sales view))
   \<and> total_petrol view = signed_take_bit 63 (sum_list (map petrol_car_sales view))
   \<and> map (\<lambda>(y, e, p). e) (sales_by_year view) =
       map (\<lambda>y. signed_take_bit 63 (sum_list (map ev_sales (filter (\<lambda>r. year r = y) view))))
         (sorted_list_of_set (year ` set view))
   \<and> map (\<lambda>(y, e, p). p) (sales_by_year view) =
       map (\<lambda>y. signed_take_bit 63
                   (sum_list (map petrol_car_sales (filter (\<lambda>r. year r = y) view))))
         (sorted_list_of_set (year ` set view))
   \<and> signed_take_bit 63 (sum_list (map (\<lambda>(y, e, p). e) (sales_by_year view))) = total_ev view
   \<and> signed_take_bit 63 (sum_list (map (\<lambda>(y, e, p). p) (sales_by_year view)))
       = total_petrol view
   \<and> (sum_list (map (\<lambda>(y, e, p). e) (sales_by_year view)) = total_ev view)
       = (- (2 ^ 63) \<le> sum_list (map (\<lambda>(y, e, p). e) (sales_by_year view))
          \<and> sum_list (map (\<lambda>(y, e, p). e) (sales_by_year view)) < 2 ^ 63)
   \<and> (sum_list (map (\<lambda>(y, e, p). p) (sales_by_year view)) = total_petrol view)
       = (- (2 ^ 63) \<le> sum_list (map (\<lambda>(y, e, p). p) (sales_by_year view))
          \<and> sum_list (map (\<lambda>(y, e, p). p) (sales_by_year view)) < 2 ^ 63)"
proof -
  have te: "total_ev view = signed_take_bit 63 (sum_list (map ev_sales view))"
    by (simp add: total_ev_def series_sum_def)
  have tp: "total_petrol view = signed_take_bit 63 (sum_list (map petrol_car_sales view))"
    by (simp add: total_petrol_def series_sum_def)
  have me: "map (\<lambda>(y, e, p). e) (sales_by_year view) =
       map (\<lambda>y. signed_take_bit 63 (sum_list (map ev_sales (filter (\<lambda>r. year r = y) view))))
         (sorted_list_of_set (year ` set view))"
    by (simp add: sales_by_year_eq comp_def)
  have mp: "map (\<lambda>(y, e, p). p) (sales_by_year view) =
       map (\<lambda>y. signed_take_bit 63
                   (sum_list (map petrol_car_sales (filter (\<lambda>r. year r = y) view))))
         (sorted_list_of_set (year ` set view))"
    by (simp add: sales_by_year_eq comp_def)
  have we: "signed_take_bit 63 (sum_list (map (\<lambda>(y, e, p). e) (sales_by_year view)))
              = total_ev view"
    unfolding me te by (rule wrap_sum_groups)
  have wp: "signed_take_bit 63 (sum_list (map (\<lambda>(y, e, p). p) (sales_by_year view)))
              = total_petrol view"
    unfolding mp tp by (rule wrap_sum_groups)
  note xe = wrap_eq_iff [OF we]
  note xp = wrap_eq_iff [OF wp]
  show ?thesis
    by (rule conjI [OF te conjI [OF tp conjI [OF me conjI [OF mp conjI [OF we conjI [OF wp
          conjI [OF xe xp]]]]]]])
qed

section \<open>Latest year and de-duplication: lemmas\<close>

lemma latest_data_filter:
  "latest_data ly view = filter (\<lambda>r. Some (year r) = ly) view"
  by (simp add: latest_data_def series_eq_def select_mask_map comp_def)

lemma series_max_Max: "xs \<noteq> [] \<Longrightarrow> series_max xs = Some (Max (set xs))"
  by (cases xs) (simp_all add: Max.set_eq_fold [symmetric])

lemma filter_dedup:
  "filter (\<lambda>r. key r = c) (dedup key seen rs) =
     (if c \<in> set seen then [] else take 1 (filter (\<lambda>r. key r = c) rs))"
proof (induction rs arbitrary: seen)
  case Nil
  show ?case by simp
next
  case (Cons r rs)
  show ?case
  proof (cases "key r \<in> set seen")
    case True
    then show ?thesis using Cons [of seen] by auto
  next
    case False
    then show ?thesis using Cons [of "key r # seen"] by auto
  qed
qed

lemma subseq_dedup: "subseq (dedup key seen rs) rs"
proof (induction rs arbitrary: seen)
  case Nil
  show ?case by simp
next
  case (Cons r rs)
  show ?case
  proof (cases "key r \<in> set seen")
    case True
    have "subseq (dedup key seen rs) (r # rs)" by (rule list_emb_Cons [OF Cons])
    then show ?thesis using True by simp
  next
    case False
    have "subseq (dedup key (key r # seen) rs) rs" by (rule Cons)
    then show ?thesis using False by simp
  qed
qed

section \<open>GDP versus share: the claim\<close>

text \<open>
  C6. The GDP-vs-share table is built from the rows of the view whose year
  is the greatest year of the view, which exist whenever the view has a row,
  and keeps their order; for every country it contains exactly the first of
  these rows of that country, unchanged, and none of the later ones; its
  added column is that row's \<open>ev_market_share\<close> times 100.
\<close>

theorem gdp_first_occurrence_kept:
  "subseq (map fst (gdp_ev_data (series_max (map year view)) view))
          (filter (\<lambda>r. year r = Max (year ` set view)) view)
   \<and> (\<forall>c. filter (\<lambda>r. country r = c) (map fst (gdp_ev_data (series_max (map year view)) view))
          = take 1 (filter (\<lambda>r. country r = c)
                      (filter (\<lambda>r. year r = Max (year ` set view)) view)))
   \<and> map snd (gdp_ev_data (series_max (map year view)) view)
       = map (\<lambda>r. ev_market_share r * 100)
           (map fst (gdp_ev_data (series_max (map year view)) view))
   \<and> (filter (\<lambda>r. year r = Max (year ` set view)) view = []) = (view = [])"
proof (cases "view = []")
  case True
  then show ?thesis
    by (simp add: gdp_ev_data_def drop_duplicates_def latest_data_filter)
next
  case False
  then have m: "series_max (map year view) = Some (Max (year ` set view))"
    by (simp add: series_max_Max)
  have "Max (year ` set view) \<in> year ` set view"
    using False by (intro Max_in) simp_all
  then have ne: "filter (\<lambda>r. year r = Max (year ` set view)) view \<noteq> []"
    by (auto simp: filter_empty_conv)
  show ?thesis
    unfolding m
    by (simp add: gdp_ev_data_def drop_duplicates_def latest_data_filter comp_def
          subseq_dedup filter_dedup ne False del: filter_filter)
qed

section \<open>Heatmap: lemmas\<close>

lemma distinct_unique: "distinct (unique xs)"
proof (induction xs rule: unique.induct)
  case 1
  show ?case by simp
next
  case (2 x xs)
  then show ?case by (simp add: set_unique)
qed

lemma sort_unique: "sort (unique xs) = sorted_list_of_set (set xs)"
proof -
  have "sorted_list_of_set (set (sort (unique xs))) = sort (unique xs)"
    by (rule sorted_list_of_set.idem_if_sorted_distinct) (simp_all add: distinct_unique)
  then show ?thesis by (simp add: set_unique)
qed

lemma heatmap_data_groups:
  "heatmap_data view =
     map (\<lambda>p. (fst (fst p), snd (fst p), series_mean (map ev_market_share (snd p))))
       (groupby (\<lambda>r. (country r, year r)) view)"
  by (simp add: heatmap_data_def case_prod_unfold)

lemma heatmap_data_keys:
  "map (\<lambda>(c, y, v). (c, y)) (heatmap_data view) =
     map fst (groupby (\<lambda>r. (country r, year r)) view)"
  by (simp add: heatmap_data_groups comp_def)

lemma heatmap_data_alist:
  "map (\<lambda>(c, y, v). ((c, y), v)) (heatmap_data view) =
     map (\<lambda>(k, rs). (k, series_mean (map ev_market_share rs)))
       (groupby (\<lambda>r. (country r, year r)) view)"
  by (simp add: heatmap_data_groups comp_def case_prod_unfold)

lemma heatmap_data_countries:
  "set (map (\<lambda>(c, y, v). c) (heatmap_data view)) = country ` set view"
proof -
  have "set (map (\<lambda>(c, y, v). c) (heatmap_data view)) =
          fst ` fst ` set (groupby (\<lambda>r. (country r, year r)) view)"
    by (simp add: heatmap_data_groups comp_def image_image)
  also have "\<dots> = fst ` (\<lambda>r. (country r, year r)) ` set view"
    by (simp only: keys_groupby)
  finally show ?thesis by (simp add: image_image)
qed

lemma heatmap_data_years:
  "set (map (\<lambda>(c, y, v). y) (heatmap_data view)) = year ` set view"
proof -
  have "set (map (\<lambda>(c, y, v). y) (heatmap_data view)) =
          snd ` fst ` set (groupby (\<lambda>r. (country r, year r)) view)"
    by (simp add: heatmap_data_groups comp_def image_image)
  also have "\<dots> = snd ` (\<lambda>r. (country r, year r)) ` set view"
    by (simp only: keys_groupby)
  finally show ?thesis by (simp add: image_image)
qed

lemma heatmap_data_distinct:
  "distinct (map (\<lambda>(c, y, v). (c, y)) (heatmap_data view))"
  using sorted_groupby [of "\<lambda>r. (country r, year r)" view]
  by (simp add: heatmap_data_keys strict_sorted_iff)

lemma heatmap_data_lookup:
  "(case map_of (map (\<lambda>(c, y, v). ((c, y), v)) (heatmap_data view)) (c, y) of
      None \<Rightarrow> NaN | Some v \<Rightarrow> v)
   = series_mean (map ev_market_share (filter (\<lambda>r. country r = c \<and> year r = y) view))"
proof (cases "(c, y) \<in> (\<lambda>r. (country r, year r)) ` set view")
  case True
  then show ?thesis
    by (simp add: heatmap_data_alist map_of_map map_of_groupby)
next
  case False
  then have "filter (\<lambda>r. country r = c \<and> year r = y) view = []"
    by (auto simp: filter_empty_conv image_iff)
  then show ?thesis using False
    by (simp add: heatmap_data_alist map_of_map map_of_groupby series_mean_def)
qed

lemma pivot_heatmap_data:
  "pivot (heatmap_data view) =
     Inr \<lparr>pt_index = sorted_list_of_set (country ` set view),
          pt_columns = sorted_list_of_set (year ` set view),
          pt_values =
            map (\<lambda>c. map (\<lambda>y. series_mean (map ev_market_share
                                   (filter (\<lambda>r. country r = c \<and> year r = y) view)))
                        (sorted_list_of_set (year ` set view)))
                (sorted_list_of_set (country ` set view))\<rparr>"
  unfolding pivot_def
  by (simp only: heatmap_data_distinct heatmap_data_lookup sort_unique
        heatmap_data_countries heatmap_data_years not_True_eq_False if_False)

lemma heatmap_of_eq:
  "heatmap_of view =
     Inr \<lparr>hm_x = sorted_list_of_set (year ` set view),
          hm_y = sorted_list_of_set (country ` set view),
          hm_z =
            map (\<lambda>c. map (\<lambda>y. times100 (series_mean (map ev_market_share
                                   (filter (\<lambda>r. country r = c \<and> year r = y) view))))
                        (sorted_list_of_set (year ` set view)))
                (sorted_list_of_set (country ` set view))\<rparr>"
  by (simp add: heatmap_of_def pivot_heatmap_data comp_def)

lemma times100_series_mean:
  "times100 (series_mean xs) =
     (if xs = [] then NaN else Fin (sum_list xs / of_nat (length xs) * 100))"
  by (simp add: series_mean_def)

section \<open>Heatmap: the claim\<close>

text \<open>
  C8. The heatmap never fails. Its rows are the countries of the view and
  its columns the years of the view, both ascending; the cell of a country and
  a year that have rows is the mean of their \<open>ev_market_share\<close> times 100, and
  the cell of a country and a year without rows is NaN, not zero. The rows
  (US, 2020, share 0.1) and (US, 2021, share 0.2), whatever their other
  columns, give the single row US with the columns 2020 and 2021 only and the
  cells 10 and 20.
\<close>

theorem heatmap_mean_pivot:
  "heatmap_of view =
     Inr \<lparr>hm_x = sorted_list_of_set (year ` set view),
          hm_y = sorted_list_of_set (country ` set view),
          hm_z =
            map (\<lambda>c. map (\<lambda>y.
                   if filter (\<lambda>r. country r = c \<and> year r = y) view = [] then NaN
                   else Fin (sum_list (map ev_market_share
                                (filter (\<lambda>r. country r = c \<and> year r = y) view))
                             / of_nat (length (filter (\<lambda>r. country r = c \<and> year r = y) view))
                             * 100))
                 (sorted_list_of_set (year ` set view)))
              (sorted_list_of_set (country ` set view))\<rparr>
   \<and> heatmap_of
        [r1\<lparr>country := ''US'', year := 2020, ev_market_share := 1/10\<rparr>,
         r2\<lparr>country := ''US'', year := 2021, ev_market_share := 2/10\<rparr>]
      = Inr \<lparr>hm_x = [2020, 2021], hm_y = [''US''], hm_z = [[Fin 10, Fin 20]]\<rparr>"
proof
  show "heatmap_of view =
     Inr \<lparr>hm_x = sorted_list_of_set (year ` set view),
          hm_y = sorted_list_of_set (country ` set view),
          hm_z =
            map (\<lambda>c. map (\<lambda>y.
                   if filter (\<lambda>r. country r = c \<and> year r = y) view = [] then NaN
                   else Fin (sum_list (map ev_market_share
                                (filter (\<lambda>r. country r = c \<and> year r = y) view))
                             / of_nat (length (filter (\<lambda>r. country r = c \<and> year r = y) view))
                             * 100))
                 (sorted_list_of_set (year ` set view)))
              (sorted_list_of_set (country ` set view))\<rparr>"
    by (simp add: heatmap_of_eq times100_series_mean)
  show "heatmap_of
        [r1\<lparr>country := ''US'', year := 2020, ev_market_share := 1/10\<rparr>,
         r2\<lparr>country := ''US'', year := 2021, ev_market_share := 2/10\<rparr>]
      = Inr \<lparr>hm_x = [2020, 2021], hm_y = [''US''], hm_z = [[Fin 10, Fin 20]]\<rparr>"
    by (simp add: heatmap_of_def pivot_def heatmap_data_def groupby_def series_mean_def)
qed

section \<open>Sorting by share: lemmas\<close>

lemma fval_le_total: "a \<noteq> NaN \<Longrightarrow> b \<noteq> NaN \<Longrightarrow> fval_le a b \<or> fval_le b a"
  by (cases a; cases b) auto

lemma fval_le_trans: "fval_le a b \<Longrightarrow> fval_le b c \<Longrightarrow> fval_le a c"
  by (cases a; cases b; cases c) auto

lemma mset_insert_desc: "mset (insert_desc x ys) = add_mset x (mset ys)"
  by (induction ys) simp_all

lemma set_insert_desc: "set (insert_desc x ys) = insert x (set ys)"
  by (induction ys) auto

lemma sorted_insert_desc:
  assumes "ev_share x \<noteq> NaN" and "\<forall>y \<in> set ys. ev_share y \<noteq> NaN"
    and "sorted_wrt (\<lambda>a b. fval_le (ev_share b) (ev_share a)) ys"
  shows "sorted_wrt (\<lambda>a b. fval_le (ev_share b) (ev_share a)) (insert_desc x ys)"
  using assms
proof (induction ys)
  case Nil
  show ?case by simp
next
  case (Cons y ys)
  show ?case
  proof (cases "fval_le (ev_share y) (ev_share x)")
    case True
    have "fval_le (ev_share z) (ev_share x)" if "z \<in> set ys" for z
    proof -
      have "fval_le (ev_share z) (ev_share y)" using Cons.prems(3) that by simp
      then show ?thesis using True by (rule fval_le_trans)
    qed
    then show ?thesis using True Cons.prems(3) by simp
  next
    case False
    have "ev_share y \<noteq> NaN" using Cons.prems(2) by simp
    then have yx: "fval_le (ev_share x) (ev_share y)"
      using fval_le_total [OF Cons.prems(1), of "ev_share y"] False by blast
    have "sorted_wrt (\<lambda>a b. fval_le (ev_share b) (ev_share a)) (insert_desc x ys)"
      using Cons by simp
    then show ?thesis using False yx Cons.prems(3) by (simp add: set_insert_desc)
  qed
qed

lemma mset_isort_desc: "mset (isort_desc rows) = mset rows"
  by (induction rows) (simp_all add: isort_desc_def mset_insert_desc)

lemma sorted_isort_desc:
  "\<forall>r \<in> set rows. ev_share r \<noteq> NaN \<Longrightarrow>
   sorted_wrt (\<lambda>a b. fval_le (ev_share b) (ev_share a)) (isort_desc rows)"
proof (induction rows)
  case Nil
  show ?case by (simp add: isort_desc_def)
next
  case (Cons r rows)
  have s: "set (isort_desc rows) = set rows"
    using mset_isort_desc [of rows] by (metis set_mset_mset)
  have "sorted_wrt (\<lambda>a b. fval_le (ev_share b) (ev_share a)) (insert_desc r (isort_desc rows))"
    using Cons by (intro sorted_insert_desc) (simp_all add: s)
  then show ?case by (simp add: isort_desc_def)
qed

lemma desc_sorter_isort_desc: "desc_sorter isort_desc"
  by (simp add: desc_sorter_def mset_isort_desc sorted_isort_desc)

lemma desc_sorter_mset:
  "desc_sorter srt \<Longrightarrow> mset (sort_values_desc srt rows) = mset rows"
proof -
  assume "desc_sorter srt"
  then have "mset (srt (filter (\<lambda>r. ev_share r \<noteq> NaN) rows))
               = mset (filter (\<lambda>r. ev_share r \<noteq> NaN) rows)"
    by (simp add: desc_sorter_def)
  then have "mset (sort_values_desc srt rows) =
          mset (filter (\<lambda>r. ev_share r \<noteq> NaN) rows) + mset (filter (\<lambda>r. \<not> ev_share r \<noteq> NaN) rows)"
    by (simp add: sort_values_desc_def)
  also have "\<dots> = mset rows"
    by (simp only: mset_filter multiset_partition [symmetric])
  finally show ?thesis .
qed

lemma desc_sorter_set:
  "desc_sorter srt \<Longrightarrow> set (sort_values_desc srt rows) = set rows"
  using desc_sorter_mset [of srt rows] by (metis set_mset_mset)

lemma desc_sorter_length:
  "desc_sorter srt \<Longrightarrow> length (sort_values_desc srt rows) = length rows"
  using desc_sorter_mset [of srt rows] by (metis size_mset)

lemma desc_sorter_Nil: "desc_sorter srt \<Longrightarrow> srt [] = []"
proof -
  assume "desc_sorter srt"
  then have "mset (srt []) = mset []" by (simp add: desc_sorter_def)
  then show ?thesis by simp
qed

lemma sort_values_desc_order:
  assumes "desc_sorter srt"
  shows "sorted_wrt (\<lambda>a b. ev_share b = NaN \<or> fval_le (ev_share b) (ev_share a))
           (sort_values_desc srt rows)"
proof -
  let ?A = "filter (\<lambda>r. ev_share r \<noteq> NaN) rows"
  have "sorted_wrt (\<lambda>a b. fval_le (ev_share b) (ev_share a)) (srt ?A)"
    using assms by (simp add: desc_sorter_def)
  then have "sorted_wrt (\<lambda>a b. ev_share b = NaN \<or> fval_le (ev_share b) (ev_share a)) (srt ?A)"
    by (rule sorted_wrt_mono_rel [rotated]) simp
  moreover have "sorted_wrt (\<lambda>a b. ev_share b = NaN \<or> fval_le (ev_share b) (ev_share a))
                   (filter (\<lambda>r. ev_share r = NaN) rows)"
    by (rule sorted_wrt_mono_rel [of _ "\<lambda>a b. True"]) simp_all
  ultimately show ?thesis
    by (simp add: sort_values_desc_def sorted_wrt_append)
qed

lemma desc_sorter_isort_desc_rev: "desc_sorter isort_desc_rev"
  using desc_sorter_isort_desc by (simp add: desc_sorter_def isort_desc_rev_def)

section \<open>Market share: lemmas\<close>

lemma float_rounding_exact: "float_rounding exact"
  by (simp add: float_rounding_def exact_def)

lemma float_rounding_mono: "float_rounding rnd \<Longrightarrow> x \<le> y \<Longrightarrow> rnd x \<le> rnd y"
  by (simp add: float_rounding_def)

lemma float_rounding_int:
  "float_rounding rnd \<Longrightarrow> \<bar>n\<bar> \<le> 2 ^ 53 \<Longrightarrow> rnd (of_int n) = of_int n"
  by (simp add: float_rounding_def)

lemma float_rounding_consts:
  assumes "float_rounding rnd"
  shows "rnd 0 = 0" and "rnd 1 = 1" and "rnd (- 1) = - 1" and "rnd 100 = 100"
    and "rnd 10000 = 10000"
  using float_rounding_int [OF assms, of 0] float_rounding_int [OF assms, of 1]
    float_rounding_int [OF assms, of "- 1"] float_rounding_int [OF assms, of 100]
    float_rounding_int [OF assms, of 10000]
  by simp_all

lemma float_rounding_sign:
  assumes "float_rounding rnd"
  shows "(rnd (of_int n) = 0) = (n = 0)" and "(0 < rnd (of_int n)) = (0 < n)"
proof -
  have pos: "1 \<le> rnd (of_int n)" if "0 < n"
  proof -
    have "(1::rat) \<le> of_int n" using that by simp
    then have "rnd 1 \<le> rnd (of_int n)" by (rule float_rounding_mono [OF assms])
    then show ?thesis by (simp add: float_rounding_consts [OF assms])
  qed
  have neg: "rnd (of_int n) \<le> - 1" if "n < 0"
  proof -
    have "(of_int n :: rat) \<le> - 1" using that by (simp add: of_int_le_iff [of n "- 1", simplified])
    then have "rnd (of_int n) \<le> rnd (- 1)" by (rule float_rounding_mono [OF assms])
    then show ?thesis by (simp add: float_rounding_consts [OF assms])
  qed
  have zero: "rnd (of_int n) = 0" if "n = 0"
    using that by (simp add: float_rounding_consts [OF assms])
  consider "n < 0" | "n = 0" | "0 < n" by linarith
  then show "(rnd (of_int n) = 0) = (n = 0)"
  proof cases
    case 1 then show ?thesis using neg by force
  next
    case 2 then show ?thesis using zero by simp
  next
    case 3 then show ?thesis using pos by force
  qed
  consider "n < 0" | "n = 0" | "0 < n" by linarith
  then show "(0 < rnd (of_int n)) = (0 < n)"
  proof cases
    case 1 then show ?thesis using neg by force
  next
    case 2 then show ?thesis using zero by simp
  next
    case 3 then show ?thesis using pos by force
  qed
qed

lemma truediv_zero:
  assumes "float_rounding rnd"
  shows "round2 rnd (mul100 rnd (truediv rnd e 0)) =
           (if e = 0 then NaN else if 0 < e then PosInf else NegInf)"
  by (simp add: truediv_def Let_def float_rounding_consts [OF assms]
        float_rounding_sign [OF assms])

lemma rint_cases: "rint q = \<lfloor>q\<rfloor> \<or> rint q = \<lfloor>q\<rfloor> + 1 \<and> of_int \<lfloor>q\<rfloor> < q"
  by (auto simp: rint_def Let_def)

lemma rint_lower: "of_int a \<le> q \<Longrightarrow> a \<le> rint q"
proof -
  assume "of_int a \<le> q"
  then have "a \<le> \<lfloor>q\<rfloor>" by (simp add: le_floor_iff)
  then show ?thesis using rint_cases [of q] by auto
qed

lemma rint_upper: "q \<le> of_int b \<Longrightarrow> rint q \<le> b"
proof -
  assume h: "q \<le> of_int b"
  then have f: "\<lfloor>q\<rfloor> \<le> b" by (simp add: floor_le_iff)
  show ?thesis
  proof (cases "rint q = \<lfloor>q\<rfloor>")
    case True
    then show ?thesis using f by simp
  next
    case False
    then have r: "rint q = \<lfloor>q\<rfloor> + 1" and lt: "of_int \<lfloor>q\<rfloor> < q"
      using rint_cases [of q] by auto
    from lt h have "(of_int \<lfloor>q\<rfloor> :: rat) < of_int b" by simp
    then have "\<lfloor>q\<rfloor> < b" by simp
    then show ?thesis using r by simp
  qed
qed

lemma share_in_range:
  assumes fr: "float_rounding rnd" and "0 \<le> e" and "e \<le> t" and "t \<noteq> 0"
  shows "\<exists>q. round2 rnd (mul100 rnd (truediv rnd e t)) = Fin q \<and> 0 \<le> q \<and> q \<le> 100"
proof -
  note c = float_rounding_consts [OF fr]
  note mono = float_rounding_mono [OF fr]
  have tp: "0 < t" using assms by simp
  let ?x = "rnd (of_int e)" and ?y = "rnd (of_int t)"
  have y1: "1 \<le> ?y" using mono [of 1 "of_int t"] tp by (simp add: c)
  have x0: "0 \<le> ?x" using mono [of 0 "of_int e"] assms(2) by (simp add: c)
  have xy: "?x \<le> ?y" using mono [of "of_int e" "of_int t"] assms(3) by simp
  let ?d = "rnd (?x / ?y)"
  have "0 \<le> ?x / ?y" using x0 y1 by simp
  then have d0: "0 \<le> ?d" using mono [of 0 "?x / ?y"] by (simp add: c)
  have "?x / ?y \<le> 1" using xy y1 by simp
  then have d1: "?d \<le> 1" using mono [of "?x / ?y" 1] by (simp add: c)
  let ?m = "rnd (?d * 100)"
  have m0: "0 \<le> ?m" using mono [of 0 "?d * 100"] d0 by (simp add: c)
  have m1: "?m \<le> 100" using mono [of "?d * 100" 100] d1 by (simp add: c)
  let ?r = "rnd (?m * 100)"
  have r0: "of_int 0 \<le> ?r" using mono [of 0 "?m * 100"] m0 by (simp add: c)
  have r1: "?r \<le> of_int 10000" using mono [of "?m * 100" 10000] m1 by (simp add: c)
  let ?k = "rint ?r"
  have k0: "0 \<le> ?k" using r0 by (rule rint_lower)
  have k1: "?k \<le> 10000" using r1 by (rule rint_upper)
  let ?q = "rnd (of_int ?k / 100)"
  have "(0::rat) \<le> of_int ?k / 100" using k0 by simp
  then have q0: "0 \<le> ?q" using mono [of 0 "of_int ?k / 100"] by (simp add: c)
  have "(of_int ?k / 100 :: rat) \<le> 100" using k1 by simp
  then have q1: "?q \<le> 100" using mono [of "of_int ?k / 100" 100] by (simp add: c)
  have "?y \<noteq> 0" using y1 by simp
  then have "round2 rnd (mul100 rnd (truediv rnd e t)) = Fin ?q"
    by (simp add: truediv_def Let_def)
  then show ?thesis using q0 q1 by blast
qed

lemma share_table_eq:
  "share_table rnd view =
     map (\<lambda>c. \<lparr>sr_country = c,
               sr_ev_sales = series_sum (map ev_sales (filter (\<lambda>r. country r = c) view)),
               sr_petrol_car_sales =
                 series_sum (map petrol_car_sales (filter (\<lambda>r. country r = c) view)),
               sr_diesel_car_sales =
                 series_sum (map diesel_car_sales (filter (\<lambda>r. country r = c) view)),
               total = series_sum
                   [series_sum (map ev_sales (filter (\<lambda>r. country r = c) view)),
                    series_sum (map petrol_car_sales (filter (\<lambda>r. country r = c) view)),
                    series_sum (map diesel_car_sales (filter (\<lambda>r. country r = c) view))],
               ev_share = round2 rnd (mul100 rnd (truediv rnd
                   (series_sum (map ev_sales (filter (\<lambda>r. country r = c) view)))
                   (series_sum
                   [series_sum (map ev_sales (filter (\<lambda>r. country r = c) view)),
                    series_sum (map petrol_car_sales (filter (\<lambda>r. country r = c) view)),
                    series_sum (map diesel_car_sales (filter (\<lambda>r. country r = c) view))])))\<rparr>)
       (sorted_list_of_set (country ` set view))"
  by (simp add: share_table_def groupby_eq comp_def Let_def)

lemma length_share_table: "length (share_table rnd view) = card (country ` set view)"
  by (simp add: share_table_eq)

lemma share_table_entry:
  assumes "s \<in> set (share_table rnd view)"
  shows "ev_share s = round2 rnd (mul100 rnd (truediv rnd (sr_ev_sales s) (total s)))"
  using assms unfolding share_table_eq by auto

lemma share_table_range:
  assumes "float_rounding rnd" and "s \<in> set (share_table rnd view)"
  shows "(sr_ev_sales s = 0 \<and> total s = 0 \<longrightarrow> ev_share s = NaN)
         \<and> (0 \<le> sr_ev_sales s \<and> sr_ev_sales s \<le> total s \<and> total s \<noteq> 0 \<longrightarrow>
              (\<exists>q. ev_share s = Fin q \<and> 0 \<le> q \<and> q \<le> 100))"
proof (intro conjI impI)
  assume "sr_ev_sales s = 0 \<and> total s = 0"
  then show "ev_share s = NaN"
    using truediv_zero [OF assms(1), of 0] by (simp add: share_table_entry [OF assms(2)])
next
  assume "0 \<le> sr_ev_sales s \<and> sr_ev_sales s \<le> total s \<and> total s \<noteq> 0"
  then show "\<exists>q. ev_share s = Fin q \<and> 0 \<le> q \<and> q \<le> 100"
    using share_in_range [OF assms(1), of "sr_ev_sales s" "total s"]
    by (simp add: share_table_entry [OF assms(2)])
qed

section \<open>Market share: the claims\<close>

text \<open>
  C3, as stated, fails: the division is not guarded. In the view of one US
  row and one German row without sales, Germany's total is zero, its share is
  NaN, and its row is in the output.
\<close>

theorem zero_total_share_counterexample:
  "market_share_by_country isort_desc exact [us_half, de_idle] =
     [\<lparr>sr_country = ''US'', sr_ev_sales = 1, sr_petrol_car_sales = 1,
       sr_diesel_car_sales = 0, total = 2, ev_share = Fin 50\<rparr>,
      \<lparr>sr_country = ''DE'', sr_ev_sales = 0, sr_petrol_car_sales = 0,
       sr_diesel_car_sales = 0, total = 0, ev_share = NaN\<rparr>]"
  by (simp add: market_share_by_country_def sort_values_desc_def share_table_def
        groupby_def series_sum_def isort_desc_def truediv_def rint_def exact_def
        us_half_def us_2020_def de_idle_def de_2019_def)

text \<open>
  C3 (amended). The share division has no guard and no fallback. For a
  country of the view whose three int64 sales sums add up to zero in int64
  arithmetic, the share is NaN when its EV sum is zero and an infinity with
  the sign of the EV sum otherwise; the country is not excluded: when the
  view has at most 15 countries its row, with that share, is in the output.
\<close>

theorem zero_total_share_unguarded:
  assumes "desc_sorter srt"
    and "float_rounding rnd"
    and "c \<in> set (map country view)"
    and "e = signed_take_bit 63 (sum_list (map ev_sales (filter (\<lambda>r. country r = c) view)))"
    and "p = signed_take_bit 63
               (sum_list (map petrol_car_sales (filter (\<lambda>r. country r = c) view)))"
    and "d = signed_take_bit 63
               (sum_list (map diesel_car_sales (filter (\<lambda>r. country r = c) view)))"
    and "signed_take_bit 63 (e + p + d) = 0"
    and "card (set (map country view)) \<le> 15"
  shows "\<lparr>sr_country = c, sr_ev_sales = e, sr_petrol_car_sales = p,
          sr_diesel_car_sales = d, total = 0,
          ev_share = (if e = 0 then NaN else if 0 < e then PosInf else NegInf)\<rparr>
         \<in> set (market_share_by_country srt rnd view)"
proof -
  let ?s = "\<lparr>sr_country = c, sr_ev_sales = e, sr_petrol_car_sales = p,
          sr_diesel_car_sales = d, total = 0,
          ev_share = (if e = 0 then NaN else if 0 < e then PosInf else NegInf)\<rparr>"
  have t: "series_sum [e, p, d] = 0"
    using assms(7) by (simp add: series_sum_def add.assoc)
  have "c \<in> set (sorted_list_of_set (country ` set view))"
    using assms(3) by simp
  then have "?s \<in> set (share_table rnd view)"
    unfolding share_table_eq set_map
    by (rule rev_image_eqI)
      (simp add: series_sum_def [of "map f xs" for f xs] assms(4-6) [symmetric] t
         truediv_zero [OF assms(2)])
  then have "?s \<in> set (sort_values_desc srt (share_table rnd view))"
    using desc_sorter_set [OF assms(1)] by simp
  moreover have "length (sort_values_desc srt (share_table rnd view)) \<le> 15"
    using assms(8) by (simp add: desc_sorter_length [OF assms(1)] length_share_table)
  ultimately show ?thesis
    by (simp add: market_share_by_country_def)
qed

theorem zero_total_share_unguarded_witness:
  "desc_sorter isort_desc
   \<and> float_rounding exact
   \<and> ''DE'' \<in> set (map country [de_idle, us_half])
   \<and> card (set (map country [de_idle, us_half])) \<le> 15
   \<and> \<lparr>sr_country = ''DE'', sr_ev_sales = 0, sr_petrol_car_sales = 0,
       sr_diesel_car_sales = 0, total = 0, ev_share = NaN\<rparr>
     \<in> set (market_share_by_country isort_desc exact [de_idle, us_half])"
proof -
  have c: "''DE'' \<in> set (map country [de_idle, us_half])"
    by (simp add: de_idle_def de_2019_def)
  have e: "0 = signed_take_bit 63
      (sum_list (map ev_sales (filter (\<lambda>r. country r = ''DE'') [de_idle, us_half])))"
    by (simp add: de_idle_def de_2019_def us_half_def us_2020_def)
  have p: "0 = signed_take_bit 63
      (sum_list (map petrol_car_sales (filter (\<lambda>r. country r = ''DE'') [de_idle, us_half])))"
    by (simp add: de_idle_def de_2019_def us_half_def us_2020_def)
  have d: "0 = signed_take_bit 63
      (sum_list (map diesel_car_sales (filter (\<lambda>r. country r = ''DE'') [de_idle, us_half])))"
    by (simp add: de_idle_def de_2019_def us_half_def us_2020_def)
  have z: "signed_take_bit 63 ((0::int) + 0 + 0) = 0" by simp
  have n: "card (set (map country [de_idle, us_half])) \<le> 15"
    by (simp add: de_idle_def de_2019_def us_half_def us_2020_def)
  have "\<lparr>sr_country = ''DE'', sr_ev_sales = 0, sr_petrol_car_sales = 0,
          sr_diesel_car_sales = 0, total = 0,
          ev_share = (if (0::int) = 0 then NaN else if (0::int) < 0 then PosInf else NegInf)\<rparr>
         \<in> set (market_share_by_country isort_desc exact [de_idle, us_half])"
    by (rule zero_total_share_unguarded
          [OF desc_sorter_isort_desc float_rounding_exact c e p d z n])
  then have m: "\<lparr>sr_country = ''DE'', sr_ev_sales = 0, sr_petrol_car_sales = 0,
       sr_diesel_car_sales = 0, total = 0, ev_share = NaN\<rparr>
     \<in> set (market_share_by_country isort_desc exact [de_idle, us_half])"
    by simp
  show ?thesis
    by (rule conjI [OF desc_sorter_isort_desc conjI [OF float_rounding_exact
          conjI [OF c conjI [OF n m]]]])
qed

text \<open>
  C4, as stated, fails in three ways. A country without sales has the
  share NaN, which is not a value in [0, 100]. Non-negative sales whose int64
  sum overflows give a share outside [0, 100]: two rows with \<open>2 ^ 62\<close> EV
  sales and one with \<open>2 ^ 62\<close> petrol sales have the EV sum \<open>- 2 ^ 63\<close>, the
  total \<open>- 2 ^ 62\<close> and the share 200. And ties need not keep their order: the
  two countries below both have the share 50 and stand in the order DE, US
  before the sort; a sorting routine that meets the contract returns US, DE.
\<close>

theorem market_share_range_counterexample:
  "map ev_share (market_share_by_country isort_desc exact [de_idle]) = [NaN]
   \<and> map (\<lambda>s. (sr_ev_sales s, total s, ev_share s))
       (market_share_by_country isort_desc exact [big_2020, big_2020, big_petrol])
     = [(- 9223372036854775808, - 4611686018427387904, Fin 200)]
   \<and> desc_sorter isort_desc_rev
   \<and> map (\<lambda>s. (sr_country s, ev_share s)) (share_table exact [us_half, de_half])
     = [(''DE'', Fin 50), (''US'', Fin 50)]
   \<and> map (\<lambda>s. (sr_country s, ev_share s))
       (market_share_by_country isort_desc_rev exact [us_half, de_half])
     = [(''US'', Fin 50), (''DE'', Fin 50)]"
proof -
  have a: "map ev_share (market_share_by_country isort_desc exact [de_idle]) = [NaN]"
    by (simp add: market_share_by_country_def sort_values_desc_def share_table_def
        groupby_def series_sum_def isort_desc_def truediv_def exact_def
        de_idle_def de_2019_def)
  have b: "map (\<lambda>s. (sr_ev_sales s, total s, ev_share s))
       (market_share_by_country isort_desc exact [big_2020, big_2020, big_petrol])
     = [(- 9223372036854775808, - 4611686018427387904, Fin 200)]"
    by (simp add: market_share_by_country_def sort_values_desc_def share_table_def
        groupby_def series_sum_def isort_desc_def truediv_def rint_def exact_def
        big_2020_def big_petrol_def us_2020_def)
  have c: "map (\<lambda>s. (sr_country s, ev_share s)) (share_table exact [us_half, de_half])
     = [(''DE'', Fin 50), (''US'', Fin 50)]"
    by (simp add: share_table_def groupby_def series_sum_def truediv_def rint_def exact_def
        us_half_def de_half_def us_2020_def de_2019_def)
  have d: "map (\<lambda>s. (sr_country s, ev_share s))
       (market_share_by_country isort_desc_rev exact [us_half, de_half])
     = [(''US'', Fin 50), (''DE'', Fin 50)]"
    by (simp add: market_share_by_country_def sort_values_desc_def share_table_def
        groupby_def series_sum_def isort_desc_rev_def isort_desc_def truediv_def rint_def
        exact_def us_half_def de_half_def us_2020_def de_2019_def)
  show ?thesis
    by (rule conjI [OF a conjI [OF b conjI [OF desc_sorter_isort_desc_rev conjI [OF c d]]]])
qed

text \<open>
  C4 (amended). For every filtered view, the market-share table has at
  most 15 entries: 15, or the number of countries of the view when that is
  smaller. The entries with a share other than NaN come first, in descending
  order of share, and the NaN entries last. The share of an entry is NaN when
  its EV sum and its total are both zero, and a value in [0, 100] when its EV
  sum is at least zero and at most its total and the total is not zero, for
  the int64 sums the entry holds. Nothing is said about the order of entries
  with the same share.
\<close>

theorem market_share_top15:
  assumes "desc_sorter srt" and "float_rounding rnd"
  shows "length (market_share_by_country srt rnd view) \<le> 15
    \<and> length (market_share_by_country srt rnd view) = min 15 (card (country ` set view))
    \<and> (\<forall>s \<in> set (market_share_by_country srt rnd view).
          (sr_ev_sales s = 0 \<and> total s = 0 \<longrightarrow> ev_share s = NaN)
          \<and> (0 \<le> sr_ev_sales s \<and> sr_ev_sales s \<le> total s \<and> total s \<noteq> 0 \<longrightarrow>
               (\<exists>q. ev_share s = Fin q \<and> 0 \<le> q \<and> q \<le> 100)))
    \<and> sorted_wrt (\<lambda>a b. ev_share b = NaN \<or> fval_le (ev_share b) (ev_share a))
         (market_share_by_country srt rnd view)"
proof (intro conjI ballI)
  show "length (market_share_by_country srt rnd view) \<le> 15"
    by (simp add: market_share_by_country_def)
next
  show "length (market_share_by_country srt rnd view) = min 15 (card (country ` set view))"
    by (simp add: market_share_by_country_def desc_sorter_length [OF assms(1)]
          length_share_table min.commute)
next
  fix s assume "s \<in> set (market_share_by_country srt rnd view)"
  then have "s \<in> set (sort_values_desc srt (share_table rnd view))"
    unfolding market_share_by_country_def by (rule in_set_takeD)
  then have s: "s \<in> set (share_table rnd view)"
    using desc_sorter_set [OF assms(1)] by simp
  note r = share_table_range [OF assms(2) s]
  from r show "sr_ev_sales s = 0 \<and> total s = 0 \<longrightarrow> ev_share s = NaN"
    by (rule conjunct1)
  from r show "0 \<le> sr_ev_sales s \<and> sr_ev_sales s \<le> total s \<and> total s \<noteq> 0 \<longrightarrow>
               (\<exists>q. ev_share s = Fin q \<and> 0 \<le> q \<and> q \<le> 100)"
    by (rule conjunct2)
next
  show "sorted_wrt (\<lambda>a b. ev_share b = NaN \<or> fval_le (ev_share b) (ev_share a))
         (market_share_by_country srt rnd view)"
    unfolding market_share_by_country_def
    by (rule sorted_wrt_take [OF sort_values_desc_order [OF assms(1)]])
qed

theorem market_share_top15_witness:
  "desc_sorter isort_desc
   \<and> float_rounding exact
   \<and> length (market_share_by_country isort_desc exact [de_idle, us_half]) \<le> 15
   \<and> sorted_wrt (\<lambda>a b. ev_share b = NaN \<or> fval_le (ev_share b) (ev_share a))
       (market_share_by_country isort_desc exact [de_idle, us_half])
   \<and> map (\<lambda>s. (sr_country s, sr_ev_sales s, total s, ev_share s))
       (market_share_by_country isort_desc exact [de_idle, us_half])
       = [(''US'', 1, 2, Fin 50), (''DE'', 0, 0, NaN)]"
proof -
  note t = market_share_top15 [OF desc_sorter_isort_desc float_rounding_exact,
      of "[de_idle, us_half]"]
  from t have l: "length (market_share_by_country isort_desc exact [de_idle, us_half]) \<le> 15"
    by (elim conjE)
  from t have s: "sorted_wrt (\<lambda>a b. ev_share b = NaN \<or> fval_le (ev_share b) (ev_share a))
       (market_share_by_country isort_desc exact [de_idle, us_half])"
    by (elim conjE)
  have v: "map (\<lambda>s. (sr_country s, sr_ev_sales s, total s, ev_share s))
       (market_share_by_country isort_desc exact [de_idle, us_half])
       = [(''US'', 1, 2, Fin 50), (''DE'', 0, 0, NaN)]"
    by (simp add: market_share_by_country_def sort_values_desc_def share_table_def
        groupby_def series_sum_def isort_desc_def truediv_def rint_def exact_def
        de_idle_def de_2019_def us_half_def us_2020_def)
  show ?thesis
    by (rule conjI [OF desc_sorter_isort_desc conjI [OF float_rounding_exact
          conjI [OF l conjI [OF s v]]]])
qed

section \<open>The dashboard: lemmas\<close>

lemma dashboard_eq:
  "dashboard srt rnd view =
     (if list_ex (\<lambda>r. charging_stations r < 0)
           (drop_duplicates country (latest_data (series_max (map year view)) view))
      then Inl ValueError
      else
        Inr \<lparr>out_sales_by_year = sales_by_year view,
             out_market_share_by_country = market_share_by_country srt rnd view,
             out_latest_year = series_max (map year view),
             out_vehicle_dist = vehicle_dist (series_max (map year view)) view,
             out_regional_sales = regional_sales view,
             out_growth_data = growth_data view,
             out_gdp_ev_data = gdp_ev_data (series_max (map year view)) view,
             out_emissions_data = emissions_data view,
             out_charging_data = charging_data view,
             out_range_data = range_data (series_max (map year view)) view,
             out_heatmap =
               \<lparr>hm_x = sorted_list_of_set (year ` set view),
                hm_y = sorted_list_of_set (country ` set view),
                hm_z =
                  map (\<lambda>c. map (\<lambda>y. times100 (series_mean (map ev_market_share
                                         (filter (\<lambda>r. country r = c \<and> year r = y) view))))
                              (sorted_list_of_set (year ` set view)))
                      (sorted_list_of_set (country ` set view))\<rparr>,
             out_total_ev = total_ev view,
             out_total_petrol = total_petrol view,
             out_avg_ev_share = avg_ev_share view,
             out_total_charging = total_charging view\<rparr>)"
  unfolding dashboard_def Let_def heatmap_of_eq
  by (simp add: scatter_size_error_def gdp_ev_data_def list_ex_iff case_prod_unfold)

lemma filtered_df_no_countries: "filtered_df df [] yr = []"
  by (cases yr) (simp add: filtered_df_filter)

section \<open>The latest year: the claim\<close>

text \<open>
  C9. For every non-empty filtered view the latest year is the greatest
  year of the view, a row of that year exists, and the latest-year tables are
  all computed from the rows of exactly that year: the vehicle-type
  distribution holds their int64 sums and the GDP-vs-share table
  de-duplicates them by country. The scatter plot of that table stops the
  script with \<open>ValueError\<close> when one of its rows has a negative number of
  charging stations; otherwise the dashboard returns, with that latest year,
  these two tables, and the range table, which is the rows of that year.
\<close>

theorem latest_year_shared:
  assumes "view \<noteq> []"
  shows "series_max (map year view) = Some (Max (year ` set view))
     \<and> filter (\<lambda>r. year r = Max (year ` set view)) view \<noteq> []
     \<and> vehicle_dist (series_max (map year view)) view =
         [(''EV'', signed_take_bit 63 (sum_list (map ev_sales
                     (filter (\<lambda>r. year r = Max (year ` set view)) view)))),
          (''Petrol'', signed_take_bit 63 (sum_list (map petrol_car_sales
                     (filter (\<lambda>r. year r = Max (year ` set view)) view)))),
          (''Diesel'', signed_take_bit 63 (sum_list (map diesel_car_sales
                     (filter (\<lambda>r. year r = Max (year ` set view)) view))))]
     \<and> gdp_ev_data (series_max (map year view)) view =
         map (\<lambda>r. (r, ev_market_share r * 100))
           (drop_duplicates country (filter (\<lambda>r. year r = Max (year ` set view)) view))
     \<and> range_data (series_max (map year view)) view =
         filter (\<lambda>r. year r = Max (year ` set view)) view
     \<and> dashboard srt rnd view =
         (if list_ex (\<lambda>r. charging_stations r < 0)
               (drop_duplicates country (filter (\<lambda>r. year r = Max (year ` set view)) view))
          then Inl ValueError
          else
            Inr \<lparr>out_sales_by_year = sales_by_year view,
                 out_market_share_by_country = market_share_by_country srt rnd view,
                 out_latest_year = Some (Max (year ` set view)),
                 out_vehicle_dist = vehicle_dist (series_max (map year view)) view,
                 out_regional_sales = regional_sales view,
                 out_growth_data = growth_data view,
                 out_gdp_ev_data = gdp_ev_data (series_max (map year view)) view,
                 out_emissions_data = emissions_data view,
                 out_charging_data = charging_data view,
                 out_range_data = filter (\<lambda>r. year r = Max (year ` set view)) view,
                 out_heatmap =
                   \<lparr>hm_x = sorted_list_of_set (year ` set view),
                    hm_y = sorted_list_of_set (country ` set view),
                    hm_z =
                      map (\<lambda>c. map (\<lambda>y. times100 (series_mean (map ev_market_share
                                         (filter (\<lambda>r. country r = c \<and> year r = y) view))))
                                  (sorted_list_of_set (year ` set view)))
                          (sorted_list_of_set (country ` set view))\<rparr>,
                 out_total_ev = total_ev view,
                 out_total_petrol = total_petrol view,
                 out_avg_ev_share = avg_ev_share view,
                 out_total_charging = total_charging view\<rparr>)"
proof -
  have m: "series_max (map year view) = Some (Max (year ` set view))"
    using assms by (simp add: series_max_Max)
  have "Max (year ` set view) \<in> year ` set view"
    using assms by (intro Max_in) simp_all
  then have ne: "filter (\<lambda>r. year r = Max (year ` set view)) view \<noteq> []"
    by (auto simp: filter_empty_conv)
  have l: "latest_data (Some (Max (year ` set view))) view =
             filter (\<lambda>r. year r = Max (year ` set view)) view"
    by (simp add: latest_data_filter)
  have v: "vehicle_dist (series_max (map year view)) view =
         [(''EV'', signed_take_bit 63 (sum_list (map ev_sales
                     (filter (\<lambda>r. year r = Max (year ` set view)) view)))),
          (''Petrol'', signed_take_bit 63 (sum_list (map petrol_car_sales
                     (filter (\<lambda>r. year r = Max (year ` set view)) view)))),
          (''Diesel'', signed_take_bit 63 (sum_list (map diesel_car_sales
                     (filter (\<lambda>r. year r = Max (year ` set view)) view))))]"
    unfolding m by (simp add: vehicle_dist_def l series_sum_def)
  have g: "gdp_ev_data (series_max (map year view)) view =
         map (\<lambda>r. (r, ev_market_share r * 100))
           (drop_duplicates country (filter (\<lambda>r. year r = Max (year ` set view)) view))"
    unfolding m by (simp add: gdp_ev_data_def l)
  have r: "range_data (series_max (map year view)) view =
         filter (\<lambda>r. year r = Max (year ` set view)) view"
    unfolding m by (simp add: range_data_def l)
  have d: "dashboard srt rnd view =
         (if list_ex (\<lambda>r. charging_stations r < 0)
               (drop_duplicates country (filter (\<lambda>r. year r = Max (year ` set view)) view))
          then Inl ValueError
          else
            Inr \<lparr>out_sales_by_year = sales_by_year view,
                 out_market_share_by_country = market_share_by_country srt rnd view,
                 out_latest_year = Some (Max (year ` set view)),
                 out_vehicle_dist = vehicle_dist (series_max (map year view)) view,
                 out_regional_sales = regional_sales view,
                 out_growth_data = growth_data view,
                 out_gdp_ev_data = gdp_ev_data (series_max (map year view)) view,
                 out_emissions_data = emissions_data view,
                 out_charging_data = charging_data view,
                 out_range_data = filter (\<lambda>r. year r = Max (year ` set view)) view,
                 out_heatmap =
                   \<lparr>hm_x = sorted_list_of_set (year ` set view),
                    hm_y = sorted_list_of_set (country ` set view),
                    hm_z =
                      map (\<lambda>c. map (\<lambda>y. times100 (series_mean (map ev_market_share
                                         (filter (\<lambda>r. country r = c \<and> year r = y) view))))
                                  (sorted_list_of_set (year ` set view)))
                          (sorted_list_of_set (country ` set view))\<rparr>,
                 out_total_ev = total_ev view,
                 out_total_petrol = total_petrol view,
                 out_avg_ev_share = avg_ev_share view,
                 out_total_charging = total_charging view\<rparr>)"
    unfolding dashboard_eq r
    unfolding m l by (rule refl)
  show ?thesis
    by (rule conjI [OF m conjI [OF ne conjI [OF v conjI [OF g conjI [OF r d]]]]])
qed

theorem latest_year_shared_witness:
  "[us_2020, de_2019, us_2021_neg] \<noteq> []
   \<and> series_max (map year [us_2020, de_2019, us_2021_neg]) = Some 2021
   \<and> vehicle_dist (series_max (map year [us_2020, de_2019, us_2021_neg]))
       [us_2020, de_2019, us_2021_neg]
     = [(''EV'', 300), (''Petrol'', 700), (''Diesel'', 0)]
   \<and> range_data (series_max (map year [us_2020, de_2019, us_2021_neg]))
       [us_2020, de_2019, us_2021_neg]
     = [us_2021_neg]
   \<and> dashboard isort_desc exact [us_2020, de_2019, us_2021_neg] = Inl ValueError"
proof -
  have h: "[us_2020, de_2019, us_2021_neg] \<noteq> []" by simp
  have m: "Max (year ` set [us_2020, de_2019, us_2021_neg]) = 2021"
    by (simp add: us_2020_def de_2019_def us_2021_neg_def us_2021_def)
  have l: "filter (\<lambda>r. year r = 2021) [us_2020, de_2019, us_2021_neg] = [us_2021_neg]"
    by (simp add: us_2020_def de_2019_def us_2021_neg_def us_2021_def)
  have s: "signed_take_bit 63 (sum_list (map ev_sales [us_2021_neg])) = 300"
    "signed_take_bit 63 (sum_list (map petrol_car_sales [us_2021_neg])) = 700"
    "signed_take_bit 63 (sum_list (map diesel_car_sales [us_2021_neg])) = 0"
    by (simp_all add: us_2021_neg_def us_2021_def)
  have d: "drop_duplicates country [us_2021_neg] = [us_2021_neg]"
    by (simp add: drop_duplicates_def)
  have n: "list_ex (\<lambda>r. charging_stations r < 0) [us_2021_neg]"
    by (simp add: us_2021_neg_def)
  note t = latest_year_shared [OF h, of isort_desc exact, unfolded m l s d]
  from t have a: "series_max (map year [us_2020, de_2019, us_2021_neg]) = Some 2021"
    by (elim conjE)
  from t have b: "vehicle_dist (series_max (map year [us_2020, de_2019, us_2021_neg]))
       [us_2020, de_2019, us_2021_neg]
     = [(''EV'', 300), (''Petrol'', 700), (''Diesel'', 0)]"
    by (elim conjE)
  from t have c: "range_data (series_max (map year [us_2020, de_2019, us_2021_neg]))
       [us_2020, de_2019, us_2021_neg]
     = [us_2021_neg]"
    by (elim conjE)
  from t have e: "dashboard isort_desc exact [us_2020, de_2019, us_2021_neg] = Inl ValueError"
    by (elim conjE) (simp only: n if_True)
  show ?thesis
    by (rule conjI [OF h conjI [OF a conjI [OF b conjI [OF c e]]]])
qed

section \<open>The empty view: the claims\<close>

text \<open>
  C2, as stated, fails: with no country selected the view is empty and the
  dashboard does not raise \<open>NoDataError\<close>; the vehicle-type distribution and
  the four summary metrics are returned.
\<close>

theorem empty_view_counterexample:
  "dashboard isort_desc exact (filtered_df example_df [] (2019, 2021)) \<noteq> Inl NoDataError
   \<and> map_sum id (\<lambda>out. (out_vehicle_dist out, out_total_ev out, out_total_petrol out,
                          out_avg_ev_share out, out_total_charging out))
       (dashboard isort_desc exact (filtered_df example_df [] (2019, 2021)))
     = Inr ([(''EV'', 0), (''Petrol'', 0), (''Diesel'', 0)], 0, 0, NaN, None)"
  by (simp add: dashboard_eq filtered_df_no_countries vehicle_dist_def latest_data_filter
        drop_duplicates_def series_sum_def total_ev_def total_petrol_def avg_ev_share_def
        series_mean_def total_charging_def)

text \<open>
  C2 (amended). For every dataset and year range, the view of an empty
  country selection is empty, and on it no aggregation and no summary metric
  raises: the dashboard returns. Its tables and the heatmap are empty, the
  latest year is NaN, the vehicle-type distribution holds three zero sums,
  total EV sales and total petrol sales are 0, and the mean EV market share
  and the maximum of the charging stations are NaN.
\<close>

theorem empty_view_returns:
  assumes "desc_sorter srt"
  shows "filtered_df df [] yr = []
   \<and> dashboard srt rnd (filtered_df df [] yr) =
       Inr \<lparr>out_sales_by_year = [],
            out_market_share_by_country = [],
            out_latest_year = None,
            out_vehicle_dist = [(''EV'', 0), (''Petrol'', 0), (''Diesel'', 0)],
            out_regional_sales = [],
            out_growth_data = [],
            out_gdp_ev_data = [],
            out_emissions_data = [],
            out_charging_data = [],
            out_range_data = [],
            out_heatmap = \<lparr>hm_x = [], hm_y = [], hm_z = []\<rparr>,
            out_total_ev = 0,
            out_total_petrol = 0,
            out_avg_ev_share = NaN,
            out_total_charging = None\<rparr>"
  by (simp add: dashboard_eq filtered_df_no_countries desc_sorter_Nil [OF assms]
        sales_by_year_def market_share_by_country_def sort_values_desc_def share_table_def
        groupby_def vehicle_dist_def latest_data_filter regional_sales_def growth_data_def
        gdp_ev_data_def drop_duplicates_def emissions_data_def charging_data_def
        range_data_def series_sum_def total_ev_def total_petrol_def avg_ev_share_def
        series_mean_def total_charging_def)

theorem empty_view_returns_witness:
  "desc_sorter isort_desc
   \<and> filtered_df example_df [] (2019, 2021) = []
   \<and> dashboard isort_desc exact (filtered_df example_df [] (2019, 2021)) =
       Inr \<lparr>out_sales_by_year = [],
            out_market_share_by_country = [],
            out_latest_year = None,
            out_vehicle_dist = [(''EV'', 0), (''Petrol'', 0), (''Diesel'', 0)],
            out_regional_sales = [],
            out_growth_data = [],
            out_gdp_ev_data = [],
            out_emissions_data = [],
            out_charging_data = [],
            out_range_data = [],
            out_heatmap = \<lparr>hm_x = [], hm_y = [], hm_z = []\<rparr>,
            out_total_ev = 0,
            out_total_petrol = 0,
            out_avg_ev_share = NaN,
            out_total_charging = None\<rparr>"
  by (rule conjI [OF desc_sorter_isort_desc empty_view_returns [OF desc_sorter_isort_desc]])

end
